theory Spec2Isabelle
  imports Main "HOL-Library.Sublist"
begin

section \<open>The LearnFlow chatbot server\<close>

text \<open>
  A shallow embedding of the request pipeline of \<^verbatim>\<open>server.js\<close> and of the utility
  modules it calls (\<^verbatim>\<open>educationalUtils.js\<close>, \<^verbatim>\<open>websiteKnowledgeUtils.js\<close>,
  \<^verbatim>\<open>webSearchUtils.js\<close>, \<^verbatim>\<open>fileScannerUtils.js\<close>).

  A JavaScript string is a sequence of UTF-16 code units; a \<^typ>\<open>char\<close> stands for one
  code unit in the range U+0000 to U+00FF, where \<^verbatim>\<open>toLowerCase\<close> and the regular
  expression classes of the source are closed. Date.now() is an \<^typ>\<open>int\<close> of milliseconds.
\<close>

subsection \<open>Strings\<close>

text \<open>Character classes of the regular expressions: \<^verbatim>\<open>\d\<close>, \<^verbatim>\<open>[A-Za-z]\<close>, \<^verbatim>\<open>\s\<close> and \<^verbatim>\<open>\w\<close>.\<close>

definition is_digit :: "char \<Rightarrow> bool" where
  "is_digit c = (let n = (of_char c :: nat) in 48 \<le> n \<and> n \<le> 57)"

definition is_letter :: "char \<Rightarrow> bool" where
  "is_letter c = (let n = (of_char c :: nat) in (65 \<le> n \<and> n \<le> 90) \<or> (97 \<le> n \<and> n \<le> 122))"

text \<open>White space and line terminators: TAB, LF, VT, FF, CR, space and the no-break space.\<close>

definition is_space :: "char \<Rightarrow> bool" where
  "is_space c = (let n = (of_char c :: nat) in (9 \<le> n \<and> n \<le> 13) \<or> n = 32 \<or> n = 160)"

definition is_word_char :: "char \<Rightarrow> bool" where
  "is_word_char c = (is_letter c \<or> is_digit c \<or> c = CHR ''_'')"

text \<open>
  \<^verbatim>\<open>String.prototype.toLowerCase\<close>: A to Z, and U+00C0 to U+00DE without the
  multiplication sign U+00D7, move up by 32.
\<close>

definition toLowerCase_char :: "char \<Rightarrow> char" where
  "toLowerCase_char c =
     (let n = (of_char c :: nat)
      in if (65 \<le> n \<and> n \<le> 90) \<or> (192 \<le> n \<and> n \<le> 222 \<and> n \<noteq> 215)
         then char_of (n + 32) else c)"

definition toLowerCase :: "string \<Rightarrow> string" where
  "toLowerCase s = map toLowerCase_char s"

text \<open>
  \<^verbatim>\<open>String.prototype.toUpperCase\<close>: a to z, and U+00E0 to U+00FE without the division
  sign U+00F7, move down by 32. The upper-case forms of U+00B5, U+00DF and U+00FF lie
  outside the range of code units modelled, and those three are left as they are; the
  source calls \<^verbatim>\<open>toUpperCase\<close> on course codes only, made of ASCII letters and digits.
\<close>

definition toUpperCase_char :: "char \<Rightarrow> char" where
  "toUpperCase_char c =
     (let n = (of_char c :: nat)
      in if (97 \<le> n \<and> n \<le> 122) \<or> (224 \<le> n \<and> n \<le> 254 \<and> n \<noteq> 247)
         then char_of (n - 32) else c)"

definition toUpperCase :: "string \<Rightarrow> string" where
  "toUpperCase s = map toUpperCase_char s"

text \<open>\<^verbatim>\<open>s.includes(k)\<close>: \<open>k\<close> occurs in \<open>s\<close> at some position.\<close>

fun str_includes :: "string \<Rightarrow> string \<Rightarrow> bool" where
  "str_includes [] k = (k = [])"
| "str_includes (c # s) k = (prefix k (c # s) \<or> str_includes s k)"

text \<open>\<^verbatim>\<open>s.startsWith(k)\<close>.\<close>

definition startsWith :: "string \<Rightarrow> string \<Rightarrow> bool" where
  "startsWith s k = prefix k s"

text \<open>\<^verbatim>\<open>s.trim()\<close>.\<close>

definition trim :: "string \<Rightarrow> string" where
  "trim s = rev (dropWhile is_space (rev (dropWhile is_space s)))"

text \<open>\<^verbatim>\<open>s.split(sep)\<close> for a separator of one character, and \<^verbatim>\<open>xs.join(sep)\<close> on strings.\<close>

fun split_on :: "char \<Rightarrow> string \<Rightarrow> string list" where
  "split_on sep [] = [[]]"
| "split_on sep (c # s) =
     (if c = sep then [] # split_on sep s
      else (case split_on sep s of [] \<Rightarrow> [[c]] | p # ps \<Rightarrow> (c # p) # ps))"

fun join :: "string \<Rightarrow> string list \<Rightarrow> string" where
  "join sep [] = []"
| "join sep [x] = x"
| "join sep (x # y # ys) = x @ sep @ join sep (y # ys)"

text \<open>A non-negative integer in a template literal: its decimal digits.\<close>

definition digit_char :: "nat \<Rightarrow> char" where
  "digit_char d = char_of (48 + d)"

fun decimal :: "nat \<Rightarrow> string" where
  "decimal n = (if n < 10 then [digit_char n] else decimal (n div 10) @ [digit_char (n mod 10)])"

text \<open>\<^verbatim>\<open>parseInt\<close> on a string of decimal digits.\<close>

definition parseInt :: "string \<Rightarrow> nat" where
  "parseInt ds = foldl (\<lambda>acc d. 10 * acc + (of_char d - 48)) 0 ds"

text \<open>\<^verbatim>\<open>xs.slice(0, n)\<close> and \<^verbatim>\<open>xs.slice(-n)\<close>.\<close>

definition slice_first :: "nat \<Rightarrow> 'a list \<Rightarrow> 'a list" where
  "slice_first n xs = take n xs"

definition slice_last :: "nat \<Rightarrow> 'a list \<Rightarrow> 'a list" where
  "slice_last n xs = drop (length xs - n) xs"

subsection \<open>JSON values\<close>

text \<open>
  What \<^verbatim>\<open>JSON.parse\<close> returns: the request body that \<^verbatim>\<open>express.json()\<close> hands over
  and the payload of the generation endpoint. A number is an IEEE double; the server
  tests whether it is zero, compares it with another (as a key of a Map) and prints it,
  and does no arithmetic on it. So a number is kept as the text that
  \<^verbatim>\<open>Number.prototype.toString\<close> prints for it, which tells two doubles apart unless
  they are the two zeros, both printed \<^verbatim>\<open>0\<close>. An object is the list of its own
  properties, in the order of the JSON text. \<^verbatim>\<open>undefined\<close>, the value of a property
  that is not there, is \<open>None\<close> of type \<open>json option\<close>.
\<close>

datatype json =
    JNull
  | JBool bool
  | JNum string
  | JStr string
  | JArr "json list"
  | JObj "(string \<times> json) list"

text \<open>What a \<^verbatim>\<open>throw\<close> carries: a TypeError of the engine, or an Error with its message.\<close>

datatype js_error = TypeError | Error string

definition truthy :: "json option \<Rightarrow> bool" where
  "truthy v = (case v of
       None \<Rightarrow> False
     | Some JNull \<Rightarrow> False
     | Some (JBool b) \<Rightarrow> b
     | Some (JNum n) \<Rightarrow> n \<noteq> ''0''
     | Some (JStr s) \<Rightarrow> s \<noteq> []
     | Some (JArr xs) \<Rightarrow> True
     | Some (JObj kvs) \<Rightarrow> True)"

text \<open>
  \<^verbatim>\<open>v.key\<close> for the keys the source reads (\<^verbatim>\<open>role\<close>, \<^verbatim>\<open>content\<close>,
  \<^verbatim>\<open>candidates\<close>, \<^verbatim>\<open>parts\<close>, \<^verbatim>\<open>text\<close>), none of which is a property of a
  prototype: reading from \<^verbatim>\<open>null\<close> or \<^verbatim>\<open>undefined\<close> throws a TypeError, an object
  gives its own property (the last one of that key, as \<^verbatim>\<open>JSON.parse\<close> keeps it), every
  other value gives \<^verbatim>\<open>undefined\<close>.
\<close>

definition get_prop :: "json option \<Rightarrow> string \<Rightarrow> js_error + json option" where
  "get_prop v key = (case v of
       None \<Rightarrow> Inl TypeError
     | Some JNull \<Rightarrow> Inl TypeError
     | Some (JObj kvs) \<Rightarrow> Inr (map_of (rev kvs) key)
     | Some _ \<Rightarrow> Inr None)"

text \<open>\<^verbatim>\<open>v[0]\<close>: the first element of an array, the first code unit of a string.\<close>

definition get_index0 :: "json option \<Rightarrow> js_error + json option" where
  "get_index0 v = (case v of
       None \<Rightarrow> Inl TypeError
     | Some JNull \<Rightarrow> Inl TypeError
     | Some (JArr xs) \<Rightarrow> Inr (case xs of [] \<Rightarrow> None | x # _ \<Rightarrow> Some x)
     | Some (JStr s) \<Rightarrow> Inr (case s of [] \<Rightarrow> None | c # _ \<Rightarrow> Some (JStr [c]))
     | Some (JObj kvs) \<Rightarrow> Inr (map_of (rev kvs) ''0'')
     | Some _ \<Rightarrow> Inr None)"

text \<open>
  \<^verbatim>\<open>String(v)\<close>, the conversion that a template literal and \<^verbatim>\<open>Array.prototype.join\<close>
  apply. An array is joined with commas, \<^verbatim>\<open>null\<close> elements giving the empty string. An
  object is printed by \<^verbatim>\<open>Object.prototype.toString\<close>, unless it has a property
  \<^verbatim>\<open>toString\<close> of its own: the value of that property is no function, neither is the
  \<^verbatim>\<open>valueOf\<close> that returns the object, and the conversion throws a TypeError.
\<close>

fun json_to_string :: "json \<Rightarrow> js_error + string"
  and json_join_items :: "json list \<Rightarrow> js_error + string" where
  "json_to_string JNull = Inr ''null''"
| "json_to_string (JBool b) = Inr (if b then ''true'' else ''false'')"
| "json_to_string (JNum n) = Inr n"
| "json_to_string (JStr s) = Inr s"
| "json_to_string (JArr xs) = json_join_items xs"
| "json_to_string (JObj kvs) =
     (if ''toString'' \<in> set (map fst kvs) then Inl TypeError else Inr ''[object Object]'')"
| "json_join_items [] = Inr []"
| "json_join_items (x # xs) =
     (case (if x = JNull then Inr [] else json_to_string x) of
        Inl e \<Rightarrow> Inl e
      | Inr item \<Rightarrow>
          if xs = [] then Inr item
          else (case json_join_items xs of
                  Inl e \<Rightarrow> Inl e
                | Inr items \<Rightarrow> Inr (item @ '','' @ items)))"

text \<open>\<^verbatim>\<open>`${v}`\<close>: a value inside a template literal.\<close>

definition template_string :: "json option \<Rightarrow> js_error + string" where
  "template_string v = (case v of None \<Rightarrow> Inr ''undefined'' | Some j \<Rightarrow> json_to_string j)"

text \<open>
  An element of the array that \<^verbatim>\<open>join\<close> is called on: \<^verbatim>\<open>undefined\<close> and \<^verbatim>\<open>null\<close>
  give the empty string.
\<close>

definition join_item :: "json option \<Rightarrow> js_error + string" where
  "join_item v = (case v of None \<Rightarrow> Inr [] | Some JNull \<Rightarrow> Inr [] | Some j \<Rightarrow> json_to_string j)"

text \<open>\<^verbatim>\<open>xs.join(sep)\<close> on values: the first conversion that throws ends it.\<close>

fun join_values :: "string \<Rightarrow> json option list \<Rightarrow> js_error + string" where
  "join_values sep [] = Inr []"
| "join_values sep (v # vs) =
     (case join_item v of
        Inl e \<Rightarrow> Inl e
      | Inr item \<Rightarrow>
          if vs = [] then Inr item
          else (case join_values sep vs of
                  Inl e \<Rightarrow> Inl e
                | Inr items \<Rightarrow> Inr (item @ sep @ items)))"

subsection \<open>Regular expressions\<close>

text \<open>
  The fragment of JavaScript's regular expressions that the source uses, all with the
  flag \<^verbatim>\<open>i\<close> and none with \<^verbatim>\<open>g\<close> or \<^verbatim>\<open>u\<close>: classes, literals compared without
  case, sequence, alternative, greedy option, greedy repetition of a class
  (\<^verbatim>\<open>{m,n}\<close>, \<^verbatim>\<open>*\<close>, \<^verbatim>\<open>+\<close>), the word boundary and capture groups.
\<close>

datatype rx =
    Eps
  | Cls "char \<Rightarrow> bool"
  | LitCI string
  | Seq rx rx
  | Alt rx rx
  | Opt rx
  | Rep nat "nat option" "char \<Rightarrow> bool"
  | WordB
  | Grp nat rx

text \<open>
  The canonical form under which the flag \<^verbatim>\<open>i\<close> compares two code units: the upper-case
  form when that is a single code unit.
\<close>

definition canonicalize :: "char \<Rightarrow> char" where
  "canonicalize c = toUpperCase_char c"

text \<open>
  A position of the subject is the code unit before it (\<open>None\<close> at the start) and the
  rest of the subject. \<^verbatim>\<open>\b\<close> holds where exactly one side is a word character.
\<close>

definition at_boundary :: "char option \<Rightarrow> string \<Rightarrow> bool" where
  "at_boundary prev rest =
     ((case prev of None \<Rightarrow> False | Some c \<Rightarrow> is_word_char c)
      \<noteq> (case rest of [] \<Rightarrow> False | c # _ \<Rightarrow> is_word_char c))"

definition prev_after :: "char option \<Rightarrow> string \<Rightarrow> char option" where
  "prev_after prev consumed = (if consumed = [] then prev else Some (last consumed))"

type_synonym captures = "(nat \<times> string) list"

text \<open>
  The backtracking matcher as a list of successes: every way the expression matches at
  the position, in the order a backtracking engine tries them (greedy first), each with
  the text consumed and the groups captured. The first element is the match JavaScript
  reports at that position.
\<close>

fun rx_match :: "rx \<Rightarrow> char option \<Rightarrow> string \<Rightarrow> (string \<times> captures) list" where
  "rx_match Eps prev rest = [([], [])]"
| "rx_match (Cls p) prev rest =
     (case rest of [] \<Rightarrow> [] | c # _ \<Rightarrow> if p c then [([c], [])] else [])"
| "rx_match (LitCI w) prev rest =
     (if length w \<le> length rest \<and> map canonicalize (take (length w) rest) = map canonicalize w
      then [(take (length w) rest, [])] else [])"
| "rx_match (Seq a b) prev rest =
     concat (map (\<lambda>(c1, k1).
                map (\<lambda>(c2, k2). (c1 @ c2, k1 @ k2))
                  (rx_match b (prev_after prev c1) (drop (length c1) rest)))
             (rx_match a prev rest))"
| "rx_match (Alt a b) prev rest = rx_match a prev rest @ rx_match b prev rest"
| "rx_match (Opt a) prev rest = rx_match a prev rest @ [([], [])]"
| "rx_match (Rep lo hi p) prev rest =
     (let run = length (takeWhile p rest);
          n = (case hi of None \<Rightarrow> run | Some h \<Rightarrow> min h run)
      in map (\<lambda>k. (take k rest, [])) (rev [lo..<Suc n]))"
| "rx_match WordB prev rest = (if at_boundary prev rest then [([], [])] else [])"
| "rx_match (Grp n a) prev rest = map (\<lambda>(c, k). (c, k @ [(n, c)])) (rx_match a prev rest)"

text \<open>
  \<^verbatim>\<open>s.match(r)\<close> without the flag \<^verbatim>\<open>g\<close>: the match at the leftmost position that has
  one, or \<^verbatim>\<open>null\<close>.
\<close>

fun rx_search :: "rx \<Rightarrow> char option \<Rightarrow> string \<Rightarrow> (string \<times> captures) option" where
  "rx_search r prev [] = (case rx_match r prev [] of [] \<Rightarrow> None | m # _ \<Rightarrow> Some m)"
| "rx_search r prev (c # cs) =
     (case rx_match r prev (c # cs) of [] \<Rightarrow> rx_search r (Some c) cs | m # _ \<Rightarrow> Some m)"

definition js_match :: "string \<Rightarrow> rx \<Rightarrow> (string \<times> captures) option" where
  "js_match s r = rx_search r None s"

text \<open>\<^verbatim>\<open>m[n]\<close> of a match: the text of group n, \<^verbatim>\<open>undefined\<close> when the group took no part.\<close>

definition group :: "string \<times> captures \<Rightarrow> nat \<Rightarrow> string option" where
  "group m n = map_of (snd m) n"

fun seqs :: "rx list \<Rightarrow> rx" where
  "seqs [] = Eps"
| "seqs [r] = r"
| "seqs (r # rs) = Seq r (seqs rs)"

fun alts :: "rx list \<Rightarrow> rx" where
  "alts [] = Eps"
| "alts [r] = r"
| "alts (r # rs) = Alt r (alts rs)"

text \<open>\<^verbatim>\<open>/\b([A-Za-z]{2,3})\s*(\d{3})\b/i\<close>\<close>

definition courseCodeRegex :: rx where
  "courseCodeRegex =
     seqs [WordB, Grp 1 (Rep 2 (Some 3) is_letter), Rep 0 None is_space,
           Grp 2 (Rep 3 (Some 3) is_digit), WordB]"

text \<open>\<^verbatim>\<open>/\bunit\s*(\d+)\b/i\<close>\<close>

definition unitRegex :: rx where
  "unitRegex = seqs [WordB, LitCI ''unit'', Rep 0 None is_space, Grp 1 (Rep 1 None is_digit), WordB]"

text \<open>\<^verbatim>\<open>/\b(\d)(st|nd|rd|th)?\s+sem(ester)?\b/i\<close>\<close>

definition semesterRegex :: rx where
  "semesterRegex =
     seqs [WordB, Grp 1 (Cls is_digit),
           Opt (Grp 2 (alts [LitCI ''st'', LitCI ''nd'', LitCI ''rd'', LitCI ''th''])),
           Rep 1 None is_space, LitCI ''sem'', Opt (Grp 3 (LitCI ''ester'')), WordB]"

text \<open>\<^verbatim>\<open>/\b(pdf|notes|manual|assignment|lab|download)\b/i\<close>\<close>

definition resourceTypeRegex :: rx where
  "resourceTypeRegex =
     seqs [WordB,
           Grp 1 (alts [LitCI ''pdf'', LitCI ''notes'', LitCI ''manual'', LitCI ''assignment'',
                        LitCI ''lab'', LitCI ''download'']),
           WordB]"

subsection \<open>Course data and navigation (educationalUtils.js)\<close>

record courseInfo =
  course_name :: string
  course_description :: string
  topics :: "string list"
  course_resources :: "(string \<times> string) list"

definition courseDatabase :: "(string \<times> courseInfo) list" where
  "courseDatabase =
     [(''CHB101'',
       \<lparr>course_name = ''Chemistry Basics 101'',
        course_description =
          ''Introduction to basic chemistry concepts including atoms, molecules, and chemical reactions.'',
        topics = [''Atomic Structure'', ''Periodic Table'', ''Chemical Bonding'', ''Stoichiometry'',
                  ''Nanomaterials'', ''Chemical Reactions''],
        course_resources = [(''Lecture Notes'', ''/resources/chb101/lectures''),
                            (''Lab Manuals'', ''/resources/chb101/labs''),
                            (''Practice Problems'', ''/resources/chb101/practice'')]\<rparr>),
      (''ITC101'',
       \<lparr>course_name = ''Introduction to Computing 101'',
        course_description = ''Fundamentals of computer science and programming.'',
        topics = [''Computer Architecture'', ''Binary and Hexadecimal'', ''Algorithms'',
                  ''Programming Basics'', ''Data Structures'', ''Problem Solving''],
        course_resources = [(''Lecture Notes'', ''/resources/itc101/lectures''),
                            (''Programming Exercises'', ''/resources/itc101/exercises''),
                            (''Reference Materials'', ''/resources/itc101/references'')]\<rparr>),
      (''CSE201'',
       \<lparr>course_name = ''Computer Science Engineering 201'',
        course_description = ''Advanced topics in computer science and engineering.'',
        topics = [''Object-Oriented Programming'', ''Database Systems'', ''Web Development'',
                  ''Software Engineering'', ''Network Fundamentals'', ''IoT Basics''],
        course_resources = [(''Lecture Notes'', ''/resources/cse201/lectures''),
                            (''Project Materials'', ''/resources/cse201/projects''),
                            (''Reference Materials'', ''/resources/cse201/references'')]\<rparr>)]"

record semesterInfo =
  sem_courses :: "string list"
  sem_path :: string

definition semesterResources :: "(string \<times> semesterInfo) list" where
  "semesterResources =
     [(''1'', \<lparr>sem_courses = [''CHB101'', ''ITC101'', ''MTH101'', ''PHY101'', ''ENG101''],
              sem_path = ''/resources/semester1''\<rparr>),
      (''2'', \<lparr>sem_courses = [''CHB102'', ''ITC102'', ''MTH102'', ''PHY102'', ''ENG102''],
              sem_path = ''/resources/semester2''\<rparr>),
      (''3'', \<lparr>sem_courses = [''CSE201'', ''CSE202'', ''MTH201'', ''ECE201'', ''HUM201''],
              sem_path = ''/resources/semester3''\<rparr>),
      (''4'', \<lparr>sem_courses = [''CSE203'', ''CSE204'', ''MTH202'', ''ECE202'', ''HUM202''],
              sem_path = ''/resources/semester4''\<rparr>)]"

definition getCourseInfo :: "string \<Rightarrow> courseInfo option" where
  "getCourseInfo courseCode = (let normalizedCode = toUpperCase courseCode in map_of courseDatabase normalizedCode)"

definition getSemesterResources :: "string \<Rightarrow> semesterInfo option" where
  "getSemesterResources semester = (let semNumber = semester in map_of semesterResources semNumber)"

definition navigationKeywords :: "string list" where
  "navigationKeywords =
     [''where'', ''find'', ''locate'', ''show me'', ''how to access'',
      ''resources'', ''materials'', ''lectures'', ''notes'', ''semester'']"

definition isNavigationQuery :: "string \<Rightarrow> bool" where
  "isNavigationQuery query =
     (let lowercaseQuery = toLowerCase query
      in list_ex (\<lambda>keyword. str_includes lowercaseQuery keyword) navigationKeywords)"

definition extractCourseCode :: "string \<Rightarrow> string option" where
  "extractCourseCode query =
     (case js_match query courseCodeRegex of
        Some m \<Rightarrow>
          (case (group m 1, group m 2) of
             (Some g1, Some g2) \<Rightarrow>
               (let courseCode = toUpperCase (g1 @ g2)
                in if map_of courseDatabase courseCode \<noteq> None then Some courseCode else None)
           | _ \<Rightarrow> None)
      | None \<Rightarrow> None)"

text \<open>
  The navigation table is read from \<^verbatim>\<open>data/websiteNavigation.json\<close> when the module is
  loaded; the file is not part of the sources, and the table is a parameter here. A list
  that the file lacks is the empty list.
\<close>

record navPage =
  page_name :: string
  page_path :: string
  page_description :: string

record navDepartment =
  dept_code :: string
  dept_name :: string
  dept_path :: string
  dept_courses :: "string list"

record navSemester =
  nsem_number :: nat
  nsem_name :: string
  nsem_path :: string
  nsem_courses :: "string list"

record navResource =
  nres_name :: string
  nres_path :: string
  nres_description :: string

record websiteNavigation =
  pages :: "navPage list"
  departments :: "navDepartment list"
  semesters :: "navSemester list"
  resources :: "navResource list"

text \<open>\<^verbatim>\<open>new RegExp(`\\b${sem.number}(st|nd|rd|th)?\\s+sem(ester)?\\b`, 'i')\<close>\<close>

definition semRegex :: "nat \<Rightarrow> rx" where
  "semRegex number =
     seqs [WordB, LitCI (decimal number),
           Opt (Grp 1 (alts [LitCI ''st'', LitCI ''nd'', LitCI ''rd'', LitCI ''th''])),
           Rep 1 None is_space, LitCI ''sem'', Opt (Grp 2 (LitCI ''ester'')), WordB]"

definition getWebsiteNavigationInfo :: "websiteNavigation \<Rightarrow> string \<Rightarrow> string" where
  "getWebsiteNavigationInfo nav query =
     (let lowercaseQuery = toLowerCase query
      in concat (map (\<lambda>page.
                   if str_includes lowercaseQuery (toLowerCase (page_name page))
                   then ''\<newline>The '' @ page_name page @ '' page can be found at '' @ page_path page
                        @ ''. '' @ page_description page @ ''\<newline>''
                   else []) (pages nav))
       @ concat (map (\<lambda>dept.
                   if str_includes lowercaseQuery (toLowerCase (dept_code dept))
                      \<or> str_includes lowercaseQuery (toLowerCase (dept_name dept))
                   then ''\<newline>The '' @ dept_name dept @ '' ('' @ dept_code dept
                        @ '') department page can be found at '' @ dept_path dept
                        @ ''. It offers courses: '' @ join '', '' (dept_courses dept) @ ''.\<newline>''
                   else []) (departments nav))
       @ concat (map (\<lambda>sem.
                   if js_match lowercaseQuery (semRegex (nsem_number sem)) \<noteq> None
                   then ''\<newline>The '' @ nsem_name sem @ '' page can be found at '' @ nsem_path sem
                        @ ''. It includes courses: '' @ join '', '' (nsem_courses sem) @ ''.\<newline>''
                   else []) (semesters nav))
       @ concat (map (\<lambda>resource.
                   if str_includes lowercaseQuery (toLowerCase (nres_name resource))
                   then ''\<newline>The '' @ nres_name resource @ '' can be found at '' @ nres_path resource
                        @ ''. '' @ nres_description resource @ ''\<newline>''
                   else []) (resources nav)))"

subsection \<open>The resource index (websiteKnowledgeUtils.js)\<close>

text \<open>
  \<^verbatim>\<open>resourceDatabase\<close> is filled once, when the module is loaded, from the directory
  \<^verbatim>\<open>resources\<close> and from \<^verbatim>\<open>downloads.json\<close>; the requests only read it. It is a
  parameter here. The fields of a download that the JSON file may lack are options.
\<close>

record fileInfo =
  file_name :: string
  file_path :: string
  fullPath :: string
  file_extension :: string
  file_size :: nat
  modified :: int

record downloadItem =
  title :: "string option"
  description :: "string option"
  tags :: "string list option"
  url :: "string option"

text \<open>The field \<^verbatim>\<open>notes\<close> is written \<open>notes'\<close>.\<close>

record resourceDatabase =
  assignments :: "fileInfo list"
  notes' :: "fileInfo list"
  labManuals :: "fileInfo list"
  downloads :: "downloadItem list"

record searchResults = resourceDatabase +
  totalResults :: nat

definition file_matches :: "string \<Rightarrow> fileInfo \<Rightarrow> bool" where
  "file_matches normalizedQuery file =
     (str_includes (toLowerCase (file_name file)) normalizedQuery
      \<or> str_includes (toLowerCase (file_path file)) normalizedQuery)"

definition download_matches :: "string \<Rightarrow> downloadItem \<Rightarrow> bool" where
  "download_matches normalizedQuery item =
     ((case title item of
         None \<Rightarrow> False
       | Some t \<Rightarrow> t \<noteq> [] \<and> str_includes (toLowerCase t) normalizedQuery)
      \<or> (case description item of
            None \<Rightarrow> False
          | Some d \<Rightarrow> d \<noteq> [] \<and> str_includes (toLowerCase d) normalizedQuery)
      \<or> (case tags item of
            None \<Rightarrow> False
          | Some ts \<Rightarrow> list_ex (\<lambda>tag. str_includes (toLowerCase tag) normalizedQuery) ts))"

definition searchResources :: "resourceDatabase \<Rightarrow> string \<Rightarrow> searchResults" where
  "searchResources db query =
     (let normalizedQuery = toLowerCase query;
          matchingAssignments = filter (file_matches normalizedQuery) (assignments db);
          matchingNotes = filter (file_matches normalizedQuery) (notes' db);
          matchingLabManuals = filter (file_matches normalizedQuery) (labManuals db);
          matchingDownloads = filter (download_matches normalizedQuery) (downloads db)
      in \<lparr>assignments = matchingAssignments,
          notes' = matchingNotes,
          labManuals = matchingLabManuals,
          downloads = matchingDownloads,
          totalResults = length matchingAssignments + length matchingNotes
                         + length matchingLabManuals + length matchingDownloads\<rparr>)"

record resourceInfo =
  courseCode :: "string option"
  unit :: "nat option"
  semester :: "nat option"
  resourceType :: "string option"

text \<open>
  \<^verbatim>\<open>parseInt\<close> of the digits captured is their exact decimal value (JavaScript agrees
  below \<open>2 ^ 53\<close>).
\<close>

definition extractResourceInfo :: "string \<Rightarrow> resourceInfo" where
  "extractResourceInfo query =
     (let courseMatch = js_match query courseCodeRegex;
          unitMatch = js_match query unitRegex;
          semesterMatch = js_match query semesterRegex;
          resourceTypeMatch = js_match query resourceTypeRegex
      in \<lparr>courseCode = (case courseMatch of
                          None \<Rightarrow> None
                        | Some m \<Rightarrow>
                            (case (group m 1, group m 2) of
                               (Some g1, Some g2) \<Rightarrow> Some (toUpperCase (g1 @ g2))
                             | _ \<Rightarrow> None)),
          unit = (case unitMatch of
                    None \<Rightarrow> None
                  | Some m \<Rightarrow> map_option parseInt (group m 1)),
          semester = (case semesterMatch of
                        None \<Rightarrow> None
                      | Some m \<Rightarrow> map_option parseInt (group m 1)),
          resourceType = (case resourceTypeMatch of
                            None \<Rightarrow> None
                          | Some m \<Rightarrow> map_option toLowerCase (group m 1))\<rparr>)"

definition file_lines :: "fileInfo list \<Rightarrow> string" where
  "file_lines fs =
     concat (map (\<lambda>file. ''  * '' @ file_name file @ '' ('' @ file_path file @ '')\<newline>'')
               (slice_first 3 fs))"

definition download_lines :: "downloadItem list \<Rightarrow> string" where
  "download_lines ds =
     concat (map (\<lambda>item.
                ''  * '' @ (case title item of None \<Rightarrow> ''undefined'' | Some t \<Rightarrow> t)
                @ '' ('' @ (case url item of
                              None \<Rightarrow> ''No URL provided''
                            | Some u \<Rightarrow> if u = [] then ''No URL provided'' else u)
                @ '')\<newline>'')
               (slice_first 3 ds))"

definition getQueryContext :: "resourceDatabase \<Rightarrow> string \<Rightarrow> string" where
  "getQueryContext db query =
     (let resourceInfo = extractResourceInfo query;
          searchResults = searchResources db query
      in (case courseCode resourceInfo of
            None \<Rightarrow> []
          | Some c \<Rightarrow> if c = [] then [] else ''The user is asking about course '' @ c @ ''. '')
       @ (case unit resourceInfo of
            None \<Rightarrow> []
          | Some n \<Rightarrow> if n = 0 then []
                      else ''They are specifically interested in Unit '' @ decimal n @ ''. '')
       @ (case semester resourceInfo of
            None \<Rightarrow> []
          | Some n \<Rightarrow> if n = 0 then []
                      else ''They are looking for Semester '' @ decimal n @ '' materials. '')
       @ (case resourceType resourceInfo of
            None \<Rightarrow> []
          | Some t \<Rightarrow> if t = [] then [] else ''They want to find '' @ t @ '' resources. '')
       @ (if totalResults searchResults > 0
          then ''\<newline>I found '' @ decimal (totalResults searchResults)
               @ '' resources that might be relevant:\<newline>''
               @ (if length (assignments searchResults) > 0
                  then ''- '' @ decimal (length (assignments searchResults)) @ '' assignments\<newline>''
                       @ file_lines (assignments searchResults)
                  else [])
               @ (if length (notes' searchResults) > 0
                  then ''- '' @ decimal (length (notes' searchResults)) @ '' notes\<newline>''
                       @ file_lines (notes' searchResults)
                  else [])
               @ (if length (labManuals searchResults) > 0
                  then ''- '' @ decimal (length (labManuals searchResults)) @ '' lab manuals\<newline>''
                       @ file_lines (labManuals searchResults)
                  else [])
               @ (if length (downloads searchResults) > 0
                  then ''- '' @ decimal (length (downloads searchResults)) @ '' downloads\<newline>''
                       @ download_lines (downloads searchResults)
                  else [])
          else []))"

subsection \<open>Web search (webSearchUtils.js)\<close>

definition currentEventKeywords :: "string list" where
  "currentEventKeywords =
     [''latest'', ''recent'', ''new'', ''current'', ''today'', ''yesterday'', ''this week'', ''this month'',
      ''this year'', ''update'', ''news'', ''2023'', ''2024'', ''2025'']"

definition needsWebSearch :: "string \<Rightarrow> bool" where
  "needsWebSearch query =
     (let normalizedQuery = toLowerCase query;
          containsCurrentEventKeyword =
            list_ex (\<lambda>keyword. str_includes normalizedQuery keyword) currentEventKeywords;
          isAskingAboutExternalTopic =
            (\<not> str_includes normalizedQuery ''learnflow''
             \<and> \<not> str_includes normalizedQuery ''course''
             \<and> \<not> str_includes normalizedQuery ''assignment''
             \<and> \<not> str_includes normalizedQuery ''lecture''
             \<and> \<not> str_includes normalizedQuery ''professor''
             \<and> \<not> str_includes normalizedQuery ''class'')
      in containsCurrentEventKeyword \<or> isAskingAboutExternalTopic)"

record webResult =
  result_title :: string
  link :: string
  snippet :: string

definition simulateWebSearchResults :: "string \<Rightarrow> webResult list" where
  "simulateWebSearchResults query =
     (let normalizedQuery = toLowerCase query
      in if str_includes normalizedQuery ''python'' \<or> str_includes normalizedQuery ''programming''
         then [\<lparr>result_title = ''Python Documentation'',
                 link = ''https://docs.python.org/3/'',
                 snippet = ''Official Python documentation with tutorials, library references, and more.''\<rparr>,
               \<lparr>result_title = ''W3Schools Python Tutorial'',
                 link = ''https://www.w3schools.com/python/'',
                 snippet = ''Python tutorial with examples and exercises for beginners and advanced learners.''\<rparr>,
               \<lparr>result_title = ''Real Python - Python Tutorials'',
                 link = ''https://realpython.com/'',
                 snippet = ''Python tutorials for developers of all skill levels, with in-depth articles and practical examples.''\<rparr>]
         else if str_includes normalizedQuery ''math'' \<or> str_includes normalizedQuery ''calculus''
         then [\<lparr>result_title = ''Khan Academy - Mathematics'',
                 link = ''https://www.khanacademy.org/math'',
                 snippet = ''Free online courses, lessons & practice in math, including arithmetic, algebra, geometry, and calculus.''\<rparr>,
               \<lparr>result_title = ''MIT OpenCourseWare - Mathematics'',
                 link = ''https://ocw.mit.edu/courses/mathematics/'',
                 snippet = ''Free lecture notes, exams, and videos from MIT mathematics courses.''\<rparr>,
               \<lparr>result_title = ''Paul's Online Math Notes'',
                 link = ''https://tutorial.math.lamar.edu/'',
                 snippet = ''Free and complete set of online notes for Algebra, Calculus, and Differential Equations.''\<rparr>]
         else if str_includes normalizedQuery ''physics'' \<or> str_includes normalizedQuery ''science''
         then [\<lparr>result_title = ''Physics Classroom'',
                 link = ''https://www.physicsclassroom.com/'',
                 snippet = ''Online physics tutorials and interactive activities for students and teachers.''\<rparr>,
               \<lparr>result_title = ''Khan Academy - Physics'',
                 link = ''https://www.khanacademy.org/science/physics'',
                 snippet = ''Free online courses, lessons & practice in physics, including mechanics, electricity, and more.''\<rparr>,
               \<lparr>result_title = ''HyperPhysics'',
                 link = ''http://hyperphysics.phy-astr.gsu.edu/hbase/index.html'',
                 snippet = ''Comprehensive physics reference with concepts organized in a hierarchical structure.''\<rparr>]
         else [\<lparr>result_title = ''Khan Academy'',
                 link = ''https://www.khanacademy.org/'',
                 snippet = ''Free online courses, lessons & practice in math, science, and more for students of all ages.''\<rparr>,
               \<lparr>result_title = ''Coursera'',
                 link = ''https://www.coursera.org/'',
                 snippet = ''Online courses from top universities and companies in various subjects.''\<rparr>,
               \<lparr>result_title = ''edX'',
                 link = ''https://www.edx.org/'',
                 snippet = ''Free online courses from Harvard, MIT, and more in computer science, business, and other subjects.''\<rparr>])"

text \<open>
  What the search provider does for a query: no key is configured
  (\<^verbatim>\<open>process.env.GOOGLE_SEARCH_API_KEY\<close> is unset), the request or the decoding of its
  answer throws, or the answer arrives, with its \<^verbatim>\<open>items\<close> when it has any.
\<close>

datatype search_provider =
    NoApiKey
  | SearchThrows
  | SearchData "webResult list option"

definition performWebSearch :: "search_provider \<Rightarrow> string \<Rightarrow> webResult list" where
  "performWebSearch provider query =
     (case provider of
        NoApiKey \<Rightarrow> simulateWebSearchResults query
      | SearchData None \<Rightarrow> []
      | SearchData (Some items) \<Rightarrow>
          (if length items > 0
           then map (\<lambda>item. \<lparr>result_title = result_title item, link = link item, snippet = snippet item\<rparr>)
                  (slice_first 3 items)
           else [])
      | SearchThrows \<Rightarrow> simulateWebSearchResults query)"

definition formatWebSearchResults :: "webResult list \<Rightarrow> string" where
  "formatWebSearchResults results =
     (if length results = 0 then []
      else ''\<newline>\<newline>Here are some resources that might help:\<newline>\<newline>''
           @ concat (map (\<lambda>(index, result).
                        decimal (index + 1) @ ''. ['' @ result_title result @ '']('' @ link result
                        @ '')\<newline>   '' @ snippet result @ ''\<newline>\<newline>'')
                      (enumerate 0 results)))"

definition getWebSearchContext :: "search_provider \<Rightarrow> string \<Rightarrow> string" where
  "getWebSearchContext provider query =
     (if \<not> needsWebSearch query then []
      else (let searchResults = performWebSearch provider query
            in formatWebSearchResults searchResults))"

subsection \<open>The file scan (fileScannerUtils.js)\<close>

text \<open>
  What lies at a path, as \<^verbatim>\<open>stat\<close>, \<^verbatim>\<open>readdir\<close> and \<^verbatim>\<open>readFile\<close> report it: nothing
  that \<^verbatim>\<open>stat\<close> can reach; a file (whatever is no directory), with its content when
  \<^verbatim>\<open>readFile\<close> can read it; a directory, with its entries and what lies at each; or a
  directory that \<^verbatim>\<open>readdir\<close> cannot list.
\<close>

datatype node =
    Missing
  | File "string option"
  | Directory "(string \<times> node) list"
  | Locked

text \<open>
  The file system: what lies at an absolute path, and the functions of Node's module
  \<^verbatim>\<open>path\<close> that the scan calls, \<^verbatim>\<open>resolve\<close> and \<^verbatim>\<open>relative\<close> with the project root as
  their first argument.
\<close>

record fileSystem =
  node_at :: "string \<Rightarrow> node"
  path_resolve :: "string \<Rightarrow> string"
  path_join :: "string \<Rightarrow> string \<Rightarrow> string"
  path_relative :: "string \<Rightarrow> string"
  path_extname :: "string \<Rightarrow> string"

text \<open>
  \<^verbatim>\<open>scanDirectory\<close>, on a directory path and what lies there. It returns the paths of the
  files found, each here with what \<^verbatim>\<open>readFile\<close> will give for it. Whatever
  \<^verbatim>\<open>readdir\<close> or \<^verbatim>\<open>stat\<close> throws is caught and gives the empty list: for the whole
  directory when it cannot be listed (it is missing, a file, or locked), for one entry
  when \<^verbatim>\<open>stat\<close> fails on it.
\<close>

fun scanDirectory ::
    "fileSystem \<Rightarrow> string \<Rightarrow> node \<Rightarrow> string list \<Rightarrow> string list \<Rightarrow> (string \<times> string option) list"
  and scanEntries ::
    "fileSystem \<Rightarrow> string \<Rightarrow> (string \<times> node) list \<Rightarrow> string list \<Rightarrow> string list
       \<Rightarrow> (string \<times> string option) list" where
  "scanDirectory fs dir (Directory entries) extensions excludeDirs =
     scanEntries fs dir entries extensions excludeDirs"
| "scanDirectory fs dir Missing extensions excludeDirs = []"
| "scanDirectory fs dir (File content) extensions excludeDirs = []"
| "scanDirectory fs dir Locked extensions excludeDirs = []"
| "scanEntries fs dir [] extensions excludeDirs = []"
| "scanEntries fs dir ((entry, child) # entries) extensions excludeDirs =
     (let fullPath = path_join fs dir entry
      in case child of
           Missing \<Rightarrow> []
         | File content \<Rightarrow>
             if extensions = [] \<or> toLowerCase (path_extname fs entry) \<in> set extensions
             then [(fullPath, content)] else []
         | _ \<Rightarrow>
             if entry \<in> set excludeDirs \<or> startsWith entry ''.'' \<or> entry = ''node_modules''
             then []
             else scanDirectory fs fullPath child extensions excludeDirs)
     @ scanEntries fs dir entries extensions excludeDirs"

record scannedFile =
  sf_path :: string
  sf_extension :: string
  sf_content :: string
  sf_size :: nat
  sf_lines :: nat

datatype scanResults =
    ScanSuccess nat nat string "scannedFile list"
      \<comment> \<open>\<^verbatim>\<open>{success: true, scannedFiles, totalFiles, scanPath, files}\<close>\<close>
  | ScanFailure string
      \<comment> \<open>\<^verbatim>\<open>{success: false, error, scannedFiles: 0}\<close>\<close>

text \<open>\<^verbatim>\<open>readFileContent\<close>, on a path and what \<^verbatim>\<open>readFile\<close> gives for it.\<close>

definition readFileContent :: "fileSystem \<Rightarrow> string \<times> string option \<Rightarrow> scannedFile option" where
  "readFileContent fs file =
     (case file of
        (filePath, None) \<Rightarrow> None
      | (filePath, Some content) \<Rightarrow>
          Some \<lparr>sf_path = path_relative fs filePath,
                sf_extension = toLowerCase (path_extname fs filePath),
                sf_content = content,
                sf_size = length content,
                sf_lines = length (split_on CHR ''\<newline>'' content)\<rparr>)"

definition scan_extensions :: "string list" where
  "scan_extensions = [''.html'', ''.css'', ''.js'', ''.jsx'', ''.ts'', ''.tsx'', ''.json'', ''.env'']"

text \<open>
  \<^verbatim>\<open>scanProjectFiles\<close>. The scan fails when \<^verbatim>\<open>stat\<close> of the resolved path throws, and
  only then: nothing else inside its \<^verbatim>\<open>try\<close> block throws, since \<^verbatim>\<open>scanDirectory\<close> and
  \<^verbatim>\<open>readFileContent\<close> catch their own errors, so the outer \<^verbatim>\<open>catch\<close> has no counterpart.
\<close>

definition scanProjectFiles :: "fileSystem \<Rightarrow> string \<Rightarrow> scanResults" where
  "scanProjectFiles fs scanPath =
     (let fullScanPath = path_resolve fs scanPath
      in case node_at fs fullScanPath of
           Missing \<Rightarrow> ScanFailure (''Path does not exist: '' @ scanPath)
         | found \<Rightarrow>
             (let files = scanDirectory fs fullScanPath found scan_extensions
                            [''node_modules'', ''dist'', ''build'', ''.git'', ''.github''];
                  filesToScan = slice_first 20 files;
                  fileContents = map (readFileContent fs) filesToScan;
                  validFiles = List.map_filter (\<lambda>file. file) fileContents
              in ScanSuccess (length validFiles) (length files)
                   (if scanPath = [] then ''/'' else scanPath) validFiles))"

subsection \<open>HTTP responses\<close>

text \<open>
  \<^verbatim>\<open>res.json(b)\<close> answers with status 200, \<^verbatim>\<open>res.status(n).json(b)\<close> with status n.
  The bodies the server sends have four shapes. The content of a message is a string,
  but for the text taken from the payload of the generation endpoint, which is passed on
  as it came (\<open>None\<close> when the payload had none).
\<close>

datatype response_body =
    ErrorBody string                      \<comment> \<open>\<^verbatim>\<open>{error}\<close>\<close>
  | RateLimitBody string int              \<comment> \<open>\<^verbatim>\<open>{error, resetTime}\<close>\<close>
  | MessageBody string "json option"      \<comment> \<open>\<^verbatim>\<open>{message: {role, content}}\<close>\<close>
  | ErrorMessageBody string string string \<comment> \<open>\<^verbatim>\<open>{error, message: {role, content}}\<close>\<close>

record response =
  status :: nat
  body :: response_body

subsection \<open>The rate limiter (server.js, rateLimits and rateLimiter)\<close>

record userToken =
  count :: int
  resetTime :: int

definition windowMs :: int where
  "windowMs = 60 * 1000"

definition maxRequests :: int where
  "maxRequests = 10"

text \<open>
  What the server reads of a request: the fields \<^verbatim>\<open>userId\<close> and \<^verbatim>\<open>messages\<close> of the
  parsed body, \<^verbatim>\<open>req.ip\<close> (which Express leaves undefined when the socket is gone), and
  \<^verbatim>\<open>Date.now()\<close> at the time the middleware runs.
\<close>

record request =
  req_userId :: "json option"
  req_ip :: "string option"
  req_messages :: "json option"
  req_now :: int

text \<open>\<^verbatim>\<open>req.body.userId || req.ip\<close>\<close>

definition identity :: "request \<Rightarrow> json option" where
  "identity req = (if truthy (req_userId req) then req_userId req else map_option JStr (req_ip req))"

text \<open>
  The keys of the Map \<^verbatim>\<open>rateLimits.tokens\<close>. A Map finds a key again by the comparison
  SameValueZero: a string, a number or a boolean by its value, an array or an object only
  when it is the very same object. Every request has its body parsed into objects of its
  own. So the key that a request brings is the value of its identity, or, when the
  identity is an array or an object, the object of that request, named here by the
  number of the request.
\<close>

datatype map_key = Value "json option" | Object nat

definition is_object :: "json option \<Rightarrow> bool" where
  "is_object v = (case v of Some (JArr xs) \<Rightarrow> True | Some (JObj kvs) \<Rightarrow> True | _ \<Rightarrow> False)"

definition userId_key :: "nat \<Rightarrow> request \<Rightarrow> map_key" where
  "userId_key n req = (if is_object (identity req) then Object n else Value (identity req))"

text \<open>
  The middleware, from the key \<open>userId\<close> that its first line computes
  (\<open>userId_key\<close>) and the clock. It mutates the Map, the model returns it. The first
  component of the result is \<open>None\<close> when the middleware calls \<^verbatim>\<open>next()\<close>, and the
  response it sends otherwise.
\<close>

definition rateLimiter ::
  "map_key \<Rightarrow> int \<Rightarrow> (map_key \<rightharpoonup> userToken) \<Rightarrow> response option \<times> (map_key \<rightharpoonup> userToken)" where
  "rateLimiter userId now tokens =
     (let tokens1 = (if tokens userId = None
                     then tokens(userId \<mapsto> \<lparr>count = 0, resetTime = now + windowMs\<rparr>)
                     else tokens)
      in case tokens1 userId of
           None \<Rightarrow> (None, tokens1)
         | Some userToken0 \<Rightarrow>
             (let userToken = (if now > resetTime userToken0
                               then \<lparr>count = 0, resetTime = now + windowMs\<rparr>
                               else userToken0)
              in if count userToken \<ge> maxRequests
                 then (Some \<lparr>status = 429,
                              body = RateLimitBody ''Rate limit exceeded. Please try again later.''
                                       (resetTime userToken)\<rparr>,
                       tokens1(userId \<mapsto> userToken))
                 else (None, tokens1(userId \<mapsto> userToken\<lparr>count := count userToken + 1\<rparr>))))"

text \<open>
  Requests handled one after the other, each given as its key and the clock at its
  arrival; and the keys of a list of requests, the first of which is the \<open>n\<close>-th that the
  server handles.
\<close>

fun run_limiter ::
  "(map_key \<times> int) list \<Rightarrow> (map_key \<rightharpoonup> userToken)
     \<Rightarrow> response option list \<times> (map_key \<rightharpoonup> userToken)" where
  "run_limiter [] tokens = ([], tokens)"
| "run_limiter ((userId, now) # reqs) tokens =
     (case rateLimiter userId now tokens of
        (r, tokens') \<Rightarrow>
          (case run_limiter reqs tokens' of (rs, tokens'') \<Rightarrow> (r # rs, tokens'')))"

fun keyed :: "nat \<Rightarrow> request list \<Rightarrow> (map_key \<times> int) list" where
  "keyed n [] = []"
| "keyed n (req # reqs) = (userId_key n req, req_now req) # keyed (Suc n) reqs"

text \<open>The outcomes of the requests under one key, in order.\<close>

definition outcomes_of ::
  "map_key \<Rightarrow> (map_key \<times> int) list \<Rightarrow> response option list \<Rightarrow> response option list" where
  "outcomes_of u reqs outs = map snd (filter (\<lambda>(req, r). fst req = u) (zip reqs outs))"

definition rejected :: "int \<Rightarrow> response" where
  "rejected r = \<lparr>status = 429,
                 body = RateLimitBody ''Rate limit exceeded. Please try again later.'' r\<rparr>"

text \<open>How many requests of a list come under one key.\<close>

definition n_requests :: "map_key \<Rightarrow> (map_key \<times> int) list \<Rightarrow> nat" where
  "n_requests u reqs = length (filter (\<lambda>req. fst req = u) reqs)"

text \<open>The outcomes of the requests of one identity, in order, and their number.\<close>

definition outcomes_for ::
  "json option \<Rightarrow> request list \<Rightarrow> response option list \<Rightarrow> response option list" where
  "outcomes_for v reqs outs = map snd (filter (\<lambda>(req, r). identity req = v) (zip reqs outs))"

definition requests_of :: "json option \<Rightarrow> request list \<Rightarrow> nat" where
  "requests_of v reqs = length (filter (\<lambda>req. identity req = v) reqs)"

subsection \<open>The chat endpoint (server.js)\<close>

text \<open>
  The request to the generation endpoint: the prompt, and the generation settings
  (temperature in tenths). What comes of it: \<^verbatim>\<open>fetch\<close> throws, for no answer arrives; or
  an answer arrives, with its HTTP status, and \<^verbatim>\<open>response.json()\<close> throws, for the body
  is no JSON text; or an answer arrives with its HTTP status and a JSON payload. The
  handler does not read the status.
\<close>

record generateRequest =
  prompt :: string
  temperature_tenths :: nat
  maxOutputTokens :: nat

datatype gateway_outcome =
    FetchThrows
  | BodyThrows nat
  | Payload nat json

text \<open>What lies outside the handler: the two tables, and the services it calls.\<close>

record environment =
  navigation_table :: websiteNavigation
  resource_index :: resourceDatabase
  search_service :: "string \<Rightarrow> search_provider"
  gemini :: "generateRequest \<Rightarrow> gateway_outcome"
  file_system :: fileSystem

text \<open>
  The check of the payload and the read of its text:
  \<^verbatim>\<open>data.candidates && data.candidates[0] && data.candidates[0].content\<close>, then
  \<^verbatim>\<open>data.candidates[0].content.parts[0].text\<close>.
\<close>

definition candidate_text :: "json \<Rightarrow> js_error + json option" where
  "candidate_text data =
     (case get_prop (Some data) ''candidates'' of
        Inl e \<Rightarrow> Inl e
      | Inr candidates \<Rightarrow>
          if \<not> truthy candidates then Inl (Error ''Invalid response format from Gemini API'')
          else (case get_index0 candidates of
                  Inl e \<Rightarrow> Inl e
                | Inr candidate \<Rightarrow>
                    if \<not> truthy candidate then Inl (Error ''Invalid response format from Gemini API'')
                    else (case get_prop candidate ''content'' of
                            Inl e \<Rightarrow> Inl e
                          | Inr content \<Rightarrow>
                              if \<not> truthy content
                              then Inl (Error ''Invalid response format from Gemini API'')
                              else (case get_prop content ''parts'' of
                                      Inl e \<Rightarrow> Inl e
                                    | Inr parts \<Rightarrow>
                                        (case get_index0 parts of
                                           Inl e \<Rightarrow> Inl e
                                         | Inr part \<Rightarrow> get_prop part ''text'')))))"

text \<open>
  The call of the generation endpoint. What \<^verbatim>\<open>fetch\<close> or \<^verbatim>\<open>response.json()\<close> throws
  is only logged; \<^verbatim>\<open>fetch failed\<close> stands for its message, whatever the transport
  reports.
\<close>

definition generate_text :: "environment \<Rightarrow> generateRequest \<Rightarrow> js_error + json option" where
  "generate_text env req =
     (case gemini env req of
        FetchThrows \<Rightarrow> Inl (Error ''fetch failed'')
      | BodyThrows code \<Rightarrow> Inl (Error ''fetch failed'')
      | Payload code data \<Rightarrow> candidate_text data)"

text \<open>
  The two pictographs of the scan replies, U+1F4C1 and U+274C, lie outside the range of
  code units modelled; their UTF-8 bytes stand for them.
\<close>

definition file_folder :: string where
  "file_folder = [CHR 0xF0, CHR 0x9F, CHR 0x93, CHR 0x81]"

definition cross_mark :: string where
  "cross_mark = [CHR 0xE2, CHR 0x9D, CHR 0x8C]"

definition assistant_message :: "json option \<Rightarrow> response" where
  "assistant_message content = \<lparr>status = 200, body = MessageBody ''assistant'' content\<rparr>"

definition fileAnalysisPrompt :: "scannedFile list \<Rightarrow> string" where
  "fileAnalysisPrompt files =
     ''You are a code review expert. Analyze these files for potential issues:\<newline>''
     @ join ''\<newline>''
         (map (\<lambda>file.
                 ''\<newline>File: '' @ sf_path file @ '' ('' @ decimal (sf_lines file) @ '' lines)\<newline>''
                 @ ''Extension: '' @ sf_extension file @ ''\<newline>''
                 @ ''First 500 chars: '' @ take 500 (sf_content file)
                 @ (if length (sf_content file) > 500 then ''...'' else []) @ ''\<newline>'')
            files)
     @ ''\<newline>\<newline>Identify potential issues like:\<newline>''
     @ ''1. Syntax errors\<newline>''
     @ ''2. Broken imports\<newline>''
     @ ''3. Unused variables or dead code\<newline>''
     @ ''4. Missing tags or structural issues\<newline>''
     @ ''5. Unhandled async code or bad API calls\<newline>\<newline>''
     @ ''Format your response as a clear, concise report with specific issues and suggested fixes.''"

text \<open>
  \<^verbatim>\<open>await scanProjectFiles(scanPath)\<close> as the handler sees it. The whole body of
  \<^verbatim>\<open>scanProjectFiles\<close> is inside its own \<^verbatim>\<open>try\<close>, so the promise is never rejected; the
  handler has a \<^verbatim>\<open>catch\<close> for a rejection all the same.
\<close>

definition await_scanProjectFiles :: "fileSystem \<Rightarrow> string \<Rightarrow> js_error + scanResults" where
  "await_scanProjectFiles fs scanPath = Inr (scanProjectFiles fs scanPath)"

text \<open>
  \<^verbatim>\<open>error.message\<close>. The message of a TypeError is the engine's own; its name stands
  for it here.
\<close>

definition error_message :: "js_error \<Rightarrow> string" where
  "error_message e = (case e of TypeError \<Rightarrow> ''TypeError'' | Error m \<Rightarrow> m)"

text \<open>The scan path of a command: what follows its first space.\<close>

definition scanPath_of :: "string \<Rightarrow> string" where
  "scanPath_of userContent =
     (let parts = split_on CHR '' '' userContent
      in if length parts > 1 then join '' '' (drop 1 parts) else [])"

text \<open>
  The inner \<^verbatim>\<open>try\<close> of the scan: the analysis that the generation endpoint gives of the
  files, as the text appended to the reply, or what is thrown on the way, also by the
  conversion of the analysis to a string.
\<close>

definition file_analysis :: "environment \<Rightarrow> scannedFile list \<Rightarrow> js_error + string" where
  "file_analysis env files =
     (case generate_text env
             \<lparr>prompt = fileAnalysisPrompt files, temperature_tenths = 3, maxOutputTokens = 1000\<rparr> of
        Inl e \<Rightarrow> Inl e
      | Inr analysisText \<Rightarrow>
          (case template_string analysisText of
             Inl e \<Rightarrow> Inl e
           | Inr text \<Rightarrow> Inr (''\<newline>'' @ text)))"

definition scan_command :: "environment \<Rightarrow> string \<Rightarrow> response" where
  "scan_command env userContent =
     (let scanPath = scanPath_of userContent
      in case await_scanProjectFiles (file_system env) scanPath of
           Inl scanError \<Rightarrow>
             assistant_message
               (Some (JStr (cross_mark @ '' Error scanning files: '' @ error_message scanError)))
         | Inr (ScanFailure error) \<Rightarrow>
             assistant_message (Some (JStr (cross_mark @ '' Scan Error: '' @ error)))
         | Inr (ScanSuccess scannedFiles totalFiles scanPath' files) \<Rightarrow>
             (let responseContent =
                    file_folder @ '' File Scan Results:\<newline>\<newline>Scanned ''
                    @ decimal scannedFiles @ '' files in '' @ scanPath' @ ''\<newline>''
              in if length files > 0
                 then (case file_analysis env files of
                         Inr analysis \<Rightarrow>
                           assistant_message (Some (JStr (responseContent @ analysis)))
                       | Inl apiError \<Rightarrow>
                           assistant_message
                             (Some (JStr (responseContent
                                @ ''\<newline>File analysis failed. Here's a list of files found:\<newline>''
                                @ join ''\<newline>''
                                    (map (\<lambda>file. ''- '' @ sf_path file @ '' (''
                                                  @ decimal (sf_lines file) @ '' lines)'')
                                       files)))))
                 else assistant_message
                        (Some (JStr (responseContent @ ''\<newline>No files found matching the criteria.'')))))"

definition closing_instructions :: string where
  "closing_instructions =
     ''\<newline>Provide concise, accurate information about academic topics, learning resources, and study techniques. Be friendly and supportive.\<newline>''
     @ ''\<newline>When answering:\<newline>''
     @ ''1. For educational questions, provide clear explanations with examples\<newline>''
     @ ''2. For coding questions, provide well-commented code snippets\<newline>''
     @ ''3. For resource questions, give specific paths where materials can be found\<newline>''
     @ ''4. For course-specific questions, reference relevant course materials and topics\<newline>''
     @ ''5. For general knowledge questions, use your knowledge to provide accurate and up-to-date information\<newline>''
     @ ''6. For website-specific questions, guide users to the appropriate section of the LearnFlow website\<newline>''
     @ ''\<newline>If the user asks about content on the LearnFlow website, try to provide direct links or paths to the relevant pages.\<newline>''
     @ ''If the user asks about academic topics not specific to LearnFlow, provide comprehensive educational answers.\<newline>''
     @ ''\<newline>Always maintain a helpful, educational tone and focus on providing value to students.''"

text \<open>The system message, built by appending one block after the other.\<close>

definition course_context :: "string \<Rightarrow> string" where
  "course_context userContent =
     (case extractCourseCode userContent of
        None \<Rightarrow> []
      | Some code \<Rightarrow>
          (case getCourseInfo code of
             None \<Rightarrow> []
           | Some courseInfo \<Rightarrow>
               ''\<newline>The user is asking about '' @ code @ '': '' @ course_name courseInfo
               @ ''. This course covers: '' @ join '', '' (topics courseInfo) @ ''. ''))"

definition semester_context :: "string \<Rightarrow> string" where
  "semester_context userContent =
     (case js_match userContent semesterRegex of
        None \<Rightarrow> []
      | Some semesterMatch \<Rightarrow>
          (case group semesterMatch 1 of
             None \<Rightarrow> []
           | Some semNumber \<Rightarrow>
               (case getSemesterResources semNumber of
                  None \<Rightarrow> []
                | Some semResources \<Rightarrow>
                    ''\<newline>Semester '' @ semNumber @ '' resources are located at ''
                    @ sem_path semResources @ '' and include courses: ''
                    @ join '', '' (sem_courses semResources) @ ''. '')))"

definition navigation_context :: "websiteNavigation \<Rightarrow> string \<Rightarrow> string" where
  "navigation_context nav userContent =
     (if isNavigationQuery userContent
      then ''\<newline>The user is asking about navigating or finding resources on the LearnFlow platform. Be specific about where to find materials. ''
           @ semester_context userContent
           @ getWebsiteNavigationInfo nav userContent
      else [])"

definition website_context :: "resourceDatabase \<Rightarrow> string \<Rightarrow> string" where
  "website_context db userContent =
     (let websiteContext = getQueryContext db userContent
      in if websiteContext \<noteq> [] then ''\<newline>'' @ websiteContext else [])"

definition web_search_context :: "search_provider \<Rightarrow> string \<Rightarrow> string" where
  "web_search_context provider userContent =
     (if needsWebSearch userContent
      then (let webSearchContext = getWebSearchContext provider userContent
            in if webSearchContext \<noteq> []
               then ''\<newline>I've searched the web for information related to this query. Here are some relevant results: ''
                    @ webSearchContext
               else [])
      else [])"

definition systemMessage :: "environment \<Rightarrow> string \<Rightarrow> string" where
  "systemMessage env userContent =
     ''You are LearnFlow Assistant, an advanced AI for an educational platform. ''
     @ course_context userContent
     @ navigation_context (navigation_table env) userContent
     @ website_context (resource_index env) userContent
     @ web_search_context (search_service env userContent) userContent
     @ closing_instructions"

text \<open>\<^verbatim>\<open>messages.slice(-5).map(msg => msg.content).join('\n')\<close>\<close>

fun contents_of :: "json list \<Rightarrow> js_error + json option list" where
  "contents_of [] = Inr []"
| "contents_of (msg # msgs) =
     (case get_prop (Some msg) ''content'' of
        Inl e \<Rightarrow> Inl e
      | Inr c \<Rightarrow> (case contents_of msgs of Inl e \<Rightarrow> Inl e | Inr cs \<Rightarrow> Inr (c # cs)))"

definition conversationHistory :: "json list \<Rightarrow> js_error + string" where
  "conversationHistory messages =
     (case contents_of (slice_last 5 messages) of
        Inl e \<Rightarrow> Inl e
      | Inr cs \<Rightarrow> join_values ''\<newline>'' cs)"

definition fullPrompt :: "environment \<Rightarrow> json list \<Rightarrow> string \<Rightarrow> js_error + string" where
  "fullPrompt env messages userContent =
     (case conversationHistory messages of
        Inl e \<Rightarrow> Inl e
      | Inr history \<Rightarrow>
          Inr (systemMessage env userContent @ ''\<newline>\<newline>Conversation history:\<newline>'' @ history
               @ ''\<newline>\<newline>User query: '' @ userContent))"

definition fallbackResponse :: "string \<Rightarrow> string" where
  "fallbackResponse userContent =
     (if str_includes (toLowerCase userContent) ''hello'' \<or> str_includes (toLowerCase userContent) ''hi''
      then ''Hello! I'm LearnFlow Assistant. How can I help you with your educational needs today?''
      else if str_includes (toLowerCase userContent) ''help''
      then ''I'm here to help with your educational questions. You can ask me about courses, assignments, or study resources.''
      else if str_includes (toLowerCase userContent) ''course'' \<or> str_includes (toLowerCase userContent) ''class''
      then ''LearnFlow offers various courses across different disciplines. You can find course materials in the Resources section of the website.''
      else if str_includes (toLowerCase userContent) ''assignment''
              \<or> str_includes (toLowerCase userContent) ''homework''
      then ''For assignment help, please check the specific course page where all assignments are listed with their due dates and requirements.''
      else if str_includes (toLowerCase userContent) ''resource''
              \<or> str_includes (toLowerCase userContent) ''material''
      then ''Educational resources are available in the Resources section. You can filter by course, semester, or topic to find what you need.''
      else ''I'm currently experiencing connection issues with my knowledge base. Please try again later or rephrase your question.'')"

definition chat_reply :: "environment \<Rightarrow> json list \<Rightarrow> string \<Rightarrow> js_error + response" where
  "chat_reply env messages userContent =
     (case fullPrompt env messages userContent of
        Inl e \<Rightarrow> Inl e
      | Inr p \<Rightarrow>
          (case generate_text env \<lparr>prompt = p, temperature_tenths = 7, maxOutputTokens = 800\<rparr> of
             Inr responseText \<Rightarrow> Inr (assistant_message responseText)
           | Inl apiError \<Rightarrow> Inr (assistant_message (Some (JStr (fallbackResponse userContent))))))"

text \<open>\<^verbatim>\<open>[...messages].reverse().find(msg => msg.role === 'user')\<close>, on the reversed list.\<close>

fun find_user :: "json list \<Rightarrow> js_error + json option" where
  "find_user [] = Inr None"
| "find_user (msg # msgs) =
     (case get_prop (Some msg) ''role'' of
        Inl e \<Rightarrow> Inl e
      | Inr role \<Rightarrow> if role = Some (JStr ''user'') then Inr (Some msg) else find_user msgs)"

definition isArray :: "json option \<Rightarrow> bool" where
  "isArray v = (case v of Some (JArr xs) \<Rightarrow> True | _ \<Rightarrow> False)"

text \<open>What the handler does with the latest user message, once it has found one.\<close>

definition answer_message :: "environment \<Rightarrow> json list \<Rightarrow> json \<Rightarrow> js_error + response" where
  "answer_message env messages latestUserMessage =
     (case get_prop (Some latestUserMessage) ''content'' of
        Inr (Some (JStr content)) \<Rightarrow>
          (let userContent = trim content
           in if startsWith userContent ''/scan'' \<or> startsWith userContent ''/debug''
              then Inr (scan_command env userContent)
              else chat_reply env messages userContent)
      | _ \<Rightarrow> Inl TypeError)"

text \<open>
  The body of the handler's outer \<^verbatim>\<open>try\<close>, from the \<^verbatim>\<open>messages\<close> field of the request
  body (\<open>None\<close> when the body has none): the response sent, or the exception that reaches
  the outer \<^verbatim>\<open>catch\<close>.
\<close>

definition handle_chat :: "environment \<Rightarrow> json option \<Rightarrow> js_error + response" where
  "handle_chat env messages =
     (if \<not> truthy messages \<or> \<not> isArray messages
      then Inr \<lparr>status = 400, body = ErrorBody ''Messages array is required''\<rparr>
      else (case messages of
              Some (JArr msgs) \<Rightarrow>
                (case find_user (rev msgs) of
                   Inl e \<Rightarrow> Inl e
                 | Inr None \<Rightarrow> Inr \<lparr>status = 400, body = ErrorBody ''No user message found''\<rparr>
                 | Inr (Some latestUserMessage) \<Rightarrow> answer_message env msgs latestUserMessage)
            | _ \<Rightarrow> Inl TypeError))"

definition chat_handler :: "environment \<Rightarrow> json option \<Rightarrow> response" where
  "chat_handler env messages =
     (case handle_chat env messages of
        Inr r \<Rightarrow> r
      | Inl error \<Rightarrow>
          \<lparr>status = 500,
           body = ErrorMessageBody ''Failed to process your request'' ''assistant''
                    ''I'm sorry, I encountered an error processing your request. Please try again later.''\<rparr>)"

text \<open>
  \<^verbatim>\<open>app.post('/api/chat', rateLimiter, handler)\<close>, for the \<open>n\<close>-th request that the server
  handles: the handler runs when the limiter passes.
\<close>

definition chat_endpoint ::
  "environment \<Rightarrow> nat \<Rightarrow> request \<Rightarrow> (map_key \<rightharpoonup> userToken) \<Rightarrow> response \<times> (map_key \<rightharpoonup> userToken)" where
  "chat_endpoint env n req tokens =
     (case rateLimiter (userId_key n req) (req_now req) tokens of
        (Some r, tokens') \<Rightarrow> (r, tokens')
      | (None, tokens') \<Rightarrow> (chat_handler env (req_messages req), tokens'))"

subsection \<open>Sample inputs\<close>

text \<open>
  An environment in which every service is down: empty tables, no search key, a
  generation endpoint that cannot be reached and no path that \<^verbatim>\<open>stat\<close> can reach, with
  paths put together as POSIX does it below the project root \<^verbatim>\<open>/srv/app\<close>
  (\<^verbatim>\<open>path.extname\<close>: from the last dot of the last component, when that dot is not its
  first character). And a user message.
\<close>

definition posix_extname :: "string \<Rightarrow> string" where
  "posix_extname p =
     (let base = rev (takeWhile (\<lambda>c. c \<noteq> CHR ''/'') (rev p));
          after_dot = takeWhile (\<lambda>c. c \<noteq> CHR ''.'') (rev base)
      in if length after_dot = length base \<or> length after_dot + 1 = length base \<or> base = ''..''
         then [] else drop (length base - length after_dot - 1) base)"

definition offline_environment :: environment where
  "offline_environment =
     \<lparr>navigation_table = \<lparr>pages = [], departments = [], semesters = [], resources = []\<rparr>,
      resource_index = \<lparr>assignments = [], notes' = [], labManuals = [], downloads = []\<rparr>,
      search_service = (\<lambda>query. NoApiKey),
      gemini = (\<lambda>req. FetchThrows),
      file_system = \<lparr>node_at = (\<lambda>p. Missing), path_resolve = (\<lambda>p. ''/srv/app/'' @ p),
                      path_join = (\<lambda>dir entry. dir @ ''/'' @ entry),
                      path_relative = (\<lambda>p. if prefix ''/srv/app/'' p then drop 9 p else p),
                      path_extname = posix_extname\<rparr>\<rparr>"

definition user_message :: "string \<Rightarrow> json" where
  "user_message content = JObj [(''role'', JStr ''user''), (''content'', JStr content)]"

text \<open>
  The same environment with a generation endpoint that answers every request with the
  status 500 and a payload of the expected shape; and with one that answers with the
  status 503 and an error payload.
\<close>

definition answering_environment :: environment where
  "answering_environment =
     offline_environment
       \<lparr>gemini := (\<lambda>req. Payload 500
          (JObj [(''candidates'',
                  JArr [JObj [(''content'',
                               JObj [(''parts'', JArr [JObj [(''text'', JStr ''Hi!'')]])])]])]))\<rparr>"

definition overloaded_environment :: environment where
  "overloaded_environment =
     offline_environment
       \<lparr>gemini := (\<lambda>req. Payload 503
          (JObj [(''error'', JObj [(''code'', JNum ''503''), (''status'', JStr ''UNAVAILABLE'')])]))\<rparr>"


text \<open>A request at the time \<open>t\<close> whose \<^verbatim>\<open>userId\<close> is an object.\<close>

definition object_request :: "int \<Rightarrow> request" where
  "object_request t =
     \<lparr>req_userId = Some (JObj [(''name'', JStr ''alice'')]), req_ip = Some ''10.0.0.1'',
      req_messages = None, req_now = t\<rparr>"

text \<open>A message with role "user": an object whose \<^verbatim>\<open>role\<close> is the string \<^verbatim>\<open>user\<close>.\<close>

definition has_role_user :: "json \<Rightarrow> bool" where
  "has_role_user msg = (\<exists>kvs. msg = JObj kvs \<and> map_of (rev kvs) ''role'' = Some (JStr ''user''))"

subsection \<open>Failures of the generation endpoint\<close>

text \<open>
  A payload has the candidate and content structure when \<^verbatim>\<open>candidates\<close>, its first
  element and the \<^verbatim>\<open>content\<close> of that element are there and truthy. The call of the
  generation endpoint fails when the transport throws, when the body of the answer is no
  JSON text, or when the payload lacks that structure, whatever the HTTP status.
\<close>

definition has_candidate_content :: "json \<Rightarrow> bool" where
  "has_candidate_content data =
     (case get_prop (Some data) ''candidates'' of
        Inl e \<Rightarrow> False
      | Inr candidates \<Rightarrow>
          truthy candidates
          \<and> (case get_index0 candidates of
                Inl e \<Rightarrow> False
              | Inr candidate \<Rightarrow>
                  truthy candidate
                  \<and> (case get_prop candidate ''content'' of
                        Inl e \<Rightarrow> False
                      | Inr content \<Rightarrow> truthy content)))"

definition gateway_failure :: "gateway_outcome \<Rightarrow> bool" where
  "gateway_failure outcome =
     (case outcome of
        FetchThrows \<Rightarrow> True
      | BodyThrows code \<Rightarrow> True
      | Payload code data \<Rightarrow> \<not> has_candidate_content data)"

subsection \<open>What a regular expression matches\<close>

text \<open>
  The meaning of an expression, stated without the matcher: \<open>rx_sem r prev c post k\<close> holds
  when \<open>r\<close> matches the text \<open>c\<close>, with the code unit \<open>prev\<close> before it and the text \<open>post\<close>
  after it, and the groups \<open>k\<close>.
\<close>

fun rx_sem :: "rx \<Rightarrow> char option \<Rightarrow> string \<Rightarrow> string \<Rightarrow> captures \<Rightarrow> bool" where
  "rx_sem Eps prev c post k = (c = [] \<and> k = [])"
| "rx_sem (Cls p) prev c post k = ((\<exists>x. c = [x] \<and> p x) \<and> k = [])"
| "rx_sem (LitCI w) prev c post k = (map canonicalize c = map canonicalize w \<and> k = [])"
| "rx_sem (Seq a b) prev c post k =
     (\<exists>c1 c2 k1 k2. c = c1 @ c2 \<and> k = k1 @ k2 \<and> rx_sem a prev c1 (c2 @ post) k1
                     \<and> rx_sem b (prev_after prev c1) c2 post k2)"
| "rx_sem (Alt a b) prev c post k = (rx_sem a prev c post k \<or> rx_sem b prev c post k)"
| "rx_sem (Opt a) prev c post k = (rx_sem a prev c post k \<or> (c = [] \<and> k = []))"
| "rx_sem (Rep lo hi p) prev c post k =
     (list_all p c \<and> lo \<le> length c \<and> (case hi of None \<Rightarrow> True | Some h \<Rightarrow> length c \<le> h)
      \<and> k = [])"
| "rx_sem WordB prev c post k = (c = [] \<and> k = [] \<and> at_boundary prev post)"
| "rx_sem (Grp n a) prev c post k = (\<exists>k'. rx_sem a prev c post k' \<and> k = k' @ [(n, c)])"

text \<open>Whether an expression matches a text at all, whatever it captures.\<close>

definition rx_accepts :: "rx \<Rightarrow> char option \<Rightarrow> string \<Rightarrow> string \<Rightarrow> bool" where
  "rx_accepts r prev c post = (\<exists>k. rx_sem r prev c post k)"

subsection \<open>What the extractors look for\<close>

text \<open>
  The mention of a semester, in the words of the specification: a digit, an ordinal
  suffix or none, white space, and the word "sem" or "semester", letters in either case;
  as a word of its own, that is with no word character right before the digit or right
  after the word. \<open>semester_at pre rest d\<close>: such a mention with the digit \<open>d\<close> starts the
  text \<open>rest\<close>, which follows \<open>pre\<close> in the query.
\<close>

definition ordinal_suffix :: "string \<Rightarrow> bool" where
  "ordinal_suffix s =
     (toLowerCase s = ''st'' \<or> toLowerCase s = ''nd'' \<or> toLowerCase s = ''rd'' \<or> toLowerCase s = ''th'')"

definition semester_word :: "string \<Rightarrow> bool" where
  "semester_word w = (toLowerCase w = ''sem'' \<or> toLowerCase w = ''semester'')"

definition word_before :: "string \<Rightarrow> bool" where
  "word_before pre = (pre \<noteq> [] \<and> is_word_char (last pre))"

definition word_after :: "string \<Rightarrow> bool" where
  "word_after post = (post \<noteq> [] \<and> is_word_char (hd post))"

definition semester_at :: "string \<Rightarrow> string \<Rightarrow> char \<Rightarrow> bool" where
  "semester_at pre rest d =
     (\<exists>suf ws word post.
        rest = d # suf @ ws @ word @ post \<and> is_digit d \<and> (suf = [] \<or> ordinal_suffix suf)
        \<and> ws \<noteq> [] \<and> list_all is_space ws \<and> semester_word word
        \<and> \<not> word_before pre \<and> \<not> word_after post)"

definition digit_value :: "char \<Rightarrow> nat" where
  "digit_value d = of_char d - 48"

text \<open>
  The mention of a course code, in the words of the specification: two or three letters,
  optional white space and exactly three digits, as a word of its own.
  \<open>course_code_at pre rest letters digits\<close>: such a mention starts the text \<open>rest\<close>, which
  follows \<open>pre\<close> in the query.
\<close>

definition course_code_at :: "string \<Rightarrow> string \<Rightarrow> string \<Rightarrow> string \<Rightarrow> bool" where
  "course_code_at pre rest letters digits =
     (\<exists>ws post.
        rest = letters @ ws @ digits @ post
        \<and> (length letters = 2 \<or> length letters = 3) \<and> list_all is_letter letters
        \<and> list_all is_space ws
        \<and> length digits = 3 \<and> list_all is_digit digits
        \<and> \<not> word_before pre \<and> \<not> word_after post)"

section \<open>Properties\<close>

subsection \<open>Rate limiter\<close>

lemma rateLimiter_absent:
  "tokens u = None \<Longrightarrow>
   rateLimiter u now tokens = (None, tokens(u \<mapsto> \<lparr>count = 1, resetTime = now + windowMs\<rparr>))"
  by (simp add: rateLimiter_def maxRequests_def)

lemma rateLimiter_expired:
  "tokens u = Some b \<Longrightarrow> now > resetTime b \<Longrightarrow>
   rateLimiter u now tokens = (None, tokens(u \<mapsto> \<lparr>count = 1, resetTime = now + windowMs\<rparr>))"
  by (simp add: rateLimiter_def maxRequests_def)

lemma rateLimiter_pass:
  "tokens u = Some b \<Longrightarrow> now \<le> resetTime b \<Longrightarrow> count b < maxRequests \<Longrightarrow>
   rateLimiter u now tokens = (None, tokens(u \<mapsto> b\<lparr>count := count b + 1\<rparr>))"
  by (simp add: rateLimiter_def)

lemma rateLimiter_reject:
  "tokens u = Some b \<Longrightarrow> now \<le> resetTime b \<Longrightarrow> count b \<ge> maxRequests \<Longrightarrow>
   rateLimiter u now tokens = (Some (rejected (resetTime b)), tokens)"
  by (simp add: rateLimiter_def rejected_def fun_upd_idem)

lemma rateLimiter_other:
  "v \<noteq> u \<Longrightarrow> snd (rateLimiter v now tokens) u = tokens u"
  by (simp add: rateLimiter_def Let_def split: option.splits)

text \<open>
  C10. A request that the rate limiter answers with HTTP 429 leaves the whole bucket map,
  and so the count and the reset time of the rejected identity, as it was: the counter is
  incremented on the passing path only.
\<close>

theorem rejected_request_keeps_bucket:
  assumes "rateLimiter u now tokens = (Some r, tokens')"
  shows "tokens' = tokens \<and> status r = 429
         \<and> (\<exists>b. tokens u = Some b \<and> body r = RateLimitBody ''Rate limit exceeded. Please try again later.'' (resetTime b)
                 \<and> count b \<ge> maxRequests \<and> now \<le> resetTime b)"
proof (cases "tokens u")
  case None
  with assms show ?thesis by (simp add: rateLimiter_absent)
next
  case (Some b)
  show ?thesis
  proof (cases "now > resetTime b")
    case True
    with Some assms show ?thesis by (simp add: rateLimiter_expired)
  next
    case False
    with Some assms show ?thesis
      by (cases "count b < maxRequests")
         (auto simp: rateLimiter_pass rateLimiter_reject rejected_def)
  qed
qed

theorem rejected_request_keeps_bucket_witness:
  "(let alice = Value (Some (JStr ''alice''));
        tokens = [alice \<mapsto> \<lparr>count = 10, resetTime = 60000\<rparr>]
    in rateLimiter alice 500 tokens = (Some (rejected 60000), tokens))"
proof -
  let ?alice = "Value (Some (JStr ''alice''))"
  let ?tk = "[?alice \<mapsto> \<lparr>count = 10, resetTime = 60000\<rparr>]"
  have run: "rateLimiter ?alice 500 ?tk = (Some (rejected 60000), snd (rateLimiter ?alice 500 ?tk))"
    by (simp add: rateLimiter_def rejected_def maxRequests_def)
  from rejected_request_keeps_bucket [OF run]
  have "snd (rateLimiter ?alice 500 ?tk) = ?tk" by simp
  with run show ?thesis by (simp add: Let_def)
qed

lemma run_limiter_Cons:
  "run_limiter ((u, t) # reqs) tokens =
     (fst (rateLimiter u t tokens) # fst (run_limiter reqs (snd (rateLimiter u t tokens))),
      snd (run_limiter reqs (snd (rateLimiter u t tokens))))"
  by (simp split: prod.splits)

lemma run_limiter_length: "length (fst (run_limiter reqs tokens)) = length reqs"
  by (induction reqs arbitrary: tokens) (auto simp: run_limiter_Cons simp del: run_limiter.simps(2))

lemma run_limiter_append:
  "run_limiter (xs @ ys) tokens =
     (fst (run_limiter xs tokens) @ fst (run_limiter ys (snd (run_limiter xs tokens))),
      snd (run_limiter ys (snd (run_limiter xs tokens))))"
  by (induction xs arbitrary: tokens) (auto simp: run_limiter_Cons simp del: run_limiter.simps(2))

lemma outcomes_of_Cons:
  "outcomes_of u ((v, t) # reqs) (r # rs) = (if v = u then r # outcomes_of u reqs rs else outcomes_of u reqs rs)"
  by (simp add: outcomes_of_def)

lemma outcomes_of_append:
  "length xs = length os \<Longrightarrow>
   outcomes_of u (xs @ ys) (os @ ps) = outcomes_of u xs os @ outcomes_of u ys ps"
  by (simp add: outcomes_of_def)

lemma window_run:
  assumes "tokens u = Some \<lparr>count = c, resetTime = r\<rparr>"
    and "\<forall>req\<in>set reqs. fst req = u \<longrightarrow> snd req \<le> r"
  shows "outcomes_of u reqs (fst (run_limiter reqs tokens)) =
           map (\<lambda>i. if c + int i < maxRequests then None else Some (rejected r)) [0..<n_requests u reqs]
         \<and> snd (run_limiter reqs tokens) u =
           Some \<lparr>count = max c (min maxRequests (c + int (n_requests u reqs))), resetTime = r\<rparr>"
  using assms
proof (induction reqs arbitrary: tokens c)
  case Nil
  then show ?case by (simp add: outcomes_of_def n_requests_def)
next
  case (Cons req reqs)
  obtain v t where req: "req = (v, t)" by (cases req)
  from Cons.prems(2) have rest: "\<forall>req\<in>set reqs. fst req = u \<longrightarrow> snd req \<le> r" by simp
  show ?case
  proof (cases "v = u")
    case False
    then have keep: "snd (rateLimiter v t tokens) u = Some \<lparr>count = c, resetTime = r\<rparr>"
      using Cons.prems(1) by (simp add: rateLimiter_other)
    from Cons.IH [of "snd (rateLimiter v t tokens)" c, OF keep rest] False req show ?thesis
      by (simp add: outcomes_of_Cons n_requests_def run_limiter_Cons del: run_limiter.simps(2))
  next
    case True
    with Cons.prems(2) req have le: "t \<le> r" by simp
    show ?thesis
    proof (cases "c < maxRequests")
      case True
      with Cons.prems(1) le \<open>v = u\<close>
      have step: "rateLimiter v t tokens = (None, tokens(u \<mapsto> \<lparr>count = c + 1, resetTime = r\<rparr>))"
        by (simp add: rateLimiter_pass)
      have "(tokens(u \<mapsto> \<lparr>count = c + 1, resetTime = r\<rparr>)) u = Some \<lparr>count = c + 1, resetTime = r\<rparr>"
        by simp
      note IH0 = Cons.IH [of "tokens(u \<mapsto> \<lparr>count = c + 1, resetTime = r\<rparr>)" "c + 1", OF this rest]
      have IH: "outcomes_of u reqs (fst (run_limiter reqs (tokens(u \<mapsto> \<lparr>count = c + 1, resetTime = r\<rparr>)))) =
           map (\<lambda>i. if c + 1 + int i < maxRequests then None else Some (rejected r)) [0..<n_requests u reqs]
         \<and> snd (run_limiter reqs (tokens(u \<mapsto> \<lparr>count = c + 1, resetTime = r\<rparr>))) u =
           Some \<lparr>count = max (c + 1) (min maxRequests (c + 1 + int (n_requests u reqs))), resetTime = r\<rparr>"
        by (rule IH0)
      have n: "n_requests u ((u, t) # reqs) = Suc (n_requests u reqs)"
        by (simp add: n_requests_def)
      have shift: "map (\<lambda>i. if c + int i < maxRequests then None else Some (rejected r)) [0..<Suc (n_requests u reqs)]
          = None # map (\<lambda>i. if c + 1 + int i < maxRequests then None else Some (rejected r)) [0..<n_requests u reqs]"
        using True by (simp add: upt_conv_Cons map_Suc_upt [symmetric] del: upt_Suc)
      show ?thesis using IH step req \<open>v = u\<close> True
        by (simp add: outcomes_of_Cons n shift run_limiter_Cons del: run_limiter.simps(2) upt_Suc)
    next
      case False
      with Cons.prems(1) le \<open>v = u\<close>
      have step: "rateLimiter v t tokens = (Some (rejected r), tokens)"
        using rateLimiter_reject [of tokens u "\<lparr>count = c, resetTime = r\<rparr>" t] by simp
      note IH0 = Cons.IH [of tokens c, OF Cons.prems(1) rest]
      have IH: "outcomes_of u reqs (fst (run_limiter reqs tokens)) =
           map (\<lambda>i. if c + int i < maxRequests then None else Some (rejected r)) [0..<n_requests u reqs]
         \<and> snd (run_limiter reqs tokens) u =
           Some \<lparr>count = max c (min maxRequests (c + int (n_requests u reqs))), resetTime = r\<rparr>"
        by (rule IH0)
      have n: "n_requests u ((u, t) # reqs) = Suc (n_requests u reqs)"
        by (simp add: n_requests_def)
      show ?thesis using IH step req \<open>v = u\<close> False
        by (simp add: outcomes_of_Cons n run_limiter_Cons map_replicate_const replicate_append_same del: run_limiter.simps(2) upt_Suc)
    qed
  qed
qed


lemma key_window_limit:
  assumes opens: "tokens u = None \<or> (\<exists>b. tokens u = Some b \<and> t0 > resetTime b)"
    and inside: "\<forall>req\<in>set reqs. fst req = u \<longrightarrow> snd req \<le> t0 + 60000"
    and after: "t' > t0 + 60000"
  shows "outcomes_of u ((u, t0) # reqs @ [(u, t')])
           (fst (run_limiter ((u, t0) # reqs @ [(u, t')]) tokens)) =
         map (\<lambda>i. if i < 10 then None else Some (rejected (t0 + 60000)))
           [0..<Suc (n_requests u reqs)] @ [None]
       \<and> snd (run_limiter ((u, t0) # reqs @ [(u, t')]) tokens) u =
           Some \<lparr>count = 1, resetTime = t' + 60000\<rparr>"
proof -
  let ?r = "t0 + 60000"
  let ?tk1 = "tokens(u \<mapsto> \<lparr>count = 1, resetTime = ?r\<rparr>)"
  let ?tk2 = "snd (run_limiter reqs ?tk1)"
  let ?n = "n_requests u reqs"
  have first: "rateLimiter u t0 tokens = (None, ?tk1)"
    using opens by (auto simp: rateLimiter_absent rateLimiter_expired windowMs_def)
  have "?tk1 u = Some \<lparr>count = 1, resetTime = ?r\<rparr>" by simp
  note mid0 = window_run [of ?tk1 u 1 ?r reqs, OF this inside]
  have mid_out: "outcomes_of u reqs (fst (run_limiter reqs ?tk1)) =
      map (\<lambda>i. if 1 + int i < maxRequests then None else Some (rejected ?r)) [0..<?n]"
    using mid0 by (rule conjunct1)
  have mid_tk: "?tk2 u = Some \<lparr>count = max 1 (min maxRequests (1 + int ?n)), resetTime = ?r\<rparr>"
    using mid0 by (rule conjunct2)
  have last: "rateLimiter u t' ?tk2 = (None, ?tk2(u \<mapsto> \<lparr>count = 1, resetTime = t' + 60000\<rparr>))"
    using rateLimiter_expired [of ?tk2 u _ t', OF mid_tk] after by (simp add: windowMs_def)
  have shift: "map (\<lambda>i. if i < 10 then None else Some (rejected ?r)) [0..<Suc ?n] =
      None # map (\<lambda>i. if 1 + int i < maxRequests then None else Some (rejected ?r)) [0..<?n]"
    by (simp add: upt_conv_Cons map_Suc_upt [symmetric] maxRequests_def del: upt_Suc)
  have len: "length reqs = length (fst (run_limiter reqs ?tk1))"
    by (simp add: run_limiter_length)
  have out: "fst (run_limiter ((u, t0) # reqs @ [(u, t')]) tokens) =
      None # fst (run_limiter reqs ?tk1) @ [None]"
    by (simp add: run_limiter_Cons run_limiter_append first last del: run_limiter.simps(2))
  have fin: "snd (run_limiter ((u, t0) # reqs @ [(u, t')]) tokens) =
      ?tk2(u \<mapsto> \<lparr>count = 1, resetTime = t' + 60000\<rparr>)"
    by (simp add: run_limiter_Cons run_limiter_append first last del: run_limiter.simps(2))
  have "outcomes_of u ((u, t0) # reqs @ [(u, t')]) (None # fst (run_limiter reqs ?tk1) @ [None]) =
      None # outcomes_of u reqs (fst (run_limiter reqs ?tk1)) @ [None]"
    using outcomes_of_append [OF len, of u "[(u, t')]" "[None]"]
    by (simp add: outcomes_of_Cons) (simp add: outcomes_of_def)
  then show ?thesis
    unfolding out fin shift mid_out by simp
qed

lemma keyed_append: "keyed n (xs @ ys) = keyed n xs @ keyed (n + length xs) ys"
  by (induction xs arbitrary: n) auto

lemma keyed_member:
  "kr \<in> set (keyed n reqs) \<Longrightarrow> \<exists>req\<in>set reqs. \<exists>m. kr = (userId_key m req, req_now req)"
  by (induction reqs arbitrary: n) auto

lemma value_key: "\<not> is_object v \<Longrightarrow> userId_key n req = Value v \<longleftrightarrow> identity req = v"
  by (auto simp: userId_key_def)

lemma outcomes_for_keyed:
  "\<not> is_object v \<Longrightarrow> outcomes_for v reqs outs = outcomes_of (Value v) (keyed n reqs) outs"
proof (induction reqs arbitrary: n outs)
  case Nil
  then show ?case by (simp add: outcomes_for_def outcomes_of_def)
next
  case (Cons req reqs)
  show ?case
  proof (cases outs)
    case Nil
    then show ?thesis by (simp add: outcomes_for_def outcomes_of_def)
  next
    case (Cons r rs)
    from Cons.IH [OF Cons.prems, of rs "Suc n"] value_key [OF Cons.prems, of n req] Cons
    show ?thesis by (simp add: outcomes_for_def outcomes_of_def)
  qed
qed

lemma requests_of_keyed:
  "\<not> is_object v \<Longrightarrow> requests_of v reqs = n_requests (Value v) (keyed n reqs)"
proof (induction reqs arbitrary: n)
  case Nil
  then show ?case by (simp add: requests_of_def n_requests_def)
next
  case (Cons req reqs)
  from Cons.IH [OF Cons.prems, of "Suc n"] value_key [OF Cons.prems, of n req]
  show ?case by (simp add: requests_of_def n_requests_def)
qed

text \<open>
  An identity that is an array or an object brings a key of its own with every request:
  such a request finds no bucket and passes.
\<close>

lemma object_identity_passes:
  assumes "is_object (identity req)" and "tokens (Object n) = None"
  shows "rateLimiter (userId_key n req) (req_now req) tokens =
           (None, tokens(Object n \<mapsto> \<lparr>count = 1, resetTime = req_now req + windowMs\<rparr>))"
  using assms by (simp add: userId_key_def rateLimiter_absent)

text \<open>
  C2. One identity \<open>v\<close> that is no array and no object (a string, a number or
  \<^verbatim>\<open>true\<close> given as \<^verbatim>\<open>userId\<close>, or the address of the client), requests handled one after
  the other (requests of other identities may come in between). The request \<open>r0\<close> opens
  a window: \<open>v\<close> has no bucket yet, or its window has elapsed. While the clock stays
  within the window (up to 60000 ms after \<open>r0\<close>), the first 10 requests of \<open>v\<close> pass and
  every later one is answered with HTTP 429 and the reset time of the window in the
  body; the first request after the window has elapsed, \<open>r1\<close>, passes and leaves the
  counter of \<open>v\<close> at 1.
\<close>

theorem fixed_window_limit:
  assumes primitive: "\<not> is_object v"
    and same: "identity r0 = v" "identity r1 = v"
    and opens: "tokens (Value v) = None \<or> (\<exists>b. tokens (Value v) = Some b \<and> req_now r0 > resetTime b)"
    and inside: "\<forall>req\<in>set reqs. identity req = v \<longrightarrow> req_now req \<le> req_now r0 + 60000"
    and after: "req_now r1 > req_now r0 + 60000"
  shows "outcomes_for v (r0 # reqs @ [r1])
           (fst (run_limiter (keyed n (r0 # reqs @ [r1])) tokens)) =
         map (\<lambda>i. if i < 10 then None else Some (rejected (req_now r0 + 60000)))
           [0..<Suc (requests_of v reqs)] @ [None]
       \<and> snd (run_limiter (keyed n (r0 # reqs @ [r1])) tokens) (Value v) =
           Some \<lparr>count = 1, resetTime = req_now r1 + 60000\<rparr>"
proof -
  let ?keys = "keyed (Suc n) reqs"
  have k0: "userId_key n r0 = Value v"
    using value_key [OF primitive, of n r0] same(1) by blast
  have k1: "userId_key (Suc (n + length reqs)) r1 = Value v"
    using value_key [OF primitive, of "Suc (n + length reqs)" r1] same(2) by blast
  have keys: "keyed n (r0 # reqs @ [r1]) =
      (Value v, req_now r0) # ?keys @ [(Value v, req_now r1)]"
    by (simp add: keyed_append k0 k1)
  have inside': "\<forall>kr\<in>set ?keys. fst kr = Value v \<longrightarrow> snd kr \<le> req_now r0 + 60000"
  proof
    fix kr assume "kr \<in> set ?keys"
    from keyed_member [OF this] obtain req m where
      req: "req \<in> set reqs" "kr = (userId_key m req, req_now req)" by blast
    show "fst kr = Value v \<longrightarrow> snd kr \<le> req_now r0 + 60000"
      using req inside value_key [OF primitive, of m req] by simp
  qed
  note key_window_limit [of tokens "Value v" "req_now r0" ?keys "req_now r1", OF opens inside' after]
  then show ?thesis
    unfolding outcomes_for_keyed [OF primitive, of _ _ n] requests_of_keyed [OF primitive, of _ "Suc n"] keys .
qed

theorem fixed_window_limit_witness:
  "(let alice = (\<lambda>t. \<lparr>req_userId = Some (JStr ''alice''), req_ip = Some ''10.0.0.1'',
                        req_messages = None, req_now = t\<rparr>);
        bob = \<lparr>req_userId = None, req_ip = Some ''10.0.0.2'', req_messages = None, req_now = 25\<rparr>;
        reqs = [alice 0, alice 10, alice 20, bob, alice 30, alice 40, alice 50, alice 60, alice 70,
                alice 80, alice 90, alice 60000, alice 60001];
        run = run_limiter (keyed 0 reqs) Map.empty
    in outcomes_for (Some (JStr ''alice'')) reqs (fst run) =
         [None, None, None, None, None, None, None, None, None, None, Some (rejected 60000), None]
       \<and> snd run (Value (Some (JStr ''alice''))) = Some \<lparr>count = 1, resetTime = 120001\<rparr>)"
proof -
  let ?alice = "\<lambda>t. \<lparr>req_userId = Some (JStr ''alice''), req_ip = Some ''10.0.0.1'',
                        req_messages = None, req_now = t\<rparr>"
  let ?bob = "\<lparr>req_userId = None, req_ip = Some ''10.0.0.2'', req_messages = None, req_now = 25\<rparr>"
  let ?reqs = "[?alice 10, ?alice 20, ?bob, ?alice 30, ?alice 40, ?alice 50, ?alice 60, ?alice 70,
                ?alice 80, ?alice 90, ?alice 60000]"
  let ?v = "Some (JStr ''alice'')"
  have id: "\<And>t. identity (?alice t) = ?v" "identity ?bob = Some (JStr ''10.0.0.2'')"
    by (simp_all add: identity_def truthy_def)
  have p: "\<not> is_object ?v" by (simp add: is_object_def)
  have a: "(Map.empty :: map_key \<rightharpoonup> userToken) (Value ?v) = None
           \<or> (\<exists>b. (Map.empty :: map_key \<rightharpoonup> userToken) (Value ?v) = Some b
                   \<and> req_now (?alice 0) > resetTime b)"
    by simp
  have b: "\<forall>req\<in>set ?reqs. identity req = ?v \<longrightarrow> req_now req \<le> req_now (?alice 0) + 60000"
    by simp
  have c: "req_now (?alice 60001) > req_now (?alice 0) + 60000" by simp
  have n: "Suc (requests_of ?v ?reqs) = 11" by (simp add: requests_of_def id)
  have m: "map (\<lambda>i. if i < 10 then None else Some (rejected (req_now (?alice 0) + 60000))) [0..<11] @ [None]
       = [None, None, None, None, None, None, None, None, None, None, Some (rejected 60000), None]"
    by (simp add: upt_conv_Cons del: upt_Suc)
  from fixed_window_limit [OF p id(1) id(1) a b c, of 0] show ?thesis
    unfolding n m Let_def by simp
qed

text \<open>
  Eleven requests within a second, all with the same object as \<^verbatim>\<open>userId\<close> and from the
  same address: every one of them passes, the eleventh as well.
\<close>

theorem object_identity_counterexample:
  "identity (object_request 0) = identity (object_request 10)
   \<and> fst (run_limiter
            (keyed 0 [object_request 0, object_request 1, object_request 2, object_request 3,
                      object_request 4, object_request 5, object_request 6, object_request 7,
                      object_request 8, object_request 9, object_request 10])
            Map.empty) =
       [None, None, None, None, None, None, None, None, None, None, None]"
  by (simp add: object_request_def identity_def truthy_def userId_key_def is_object_def
      rateLimiter_def maxRequests_def windowMs_def)

subsection \<open>Substring tests\<close>

lemma str_includes_sublist: "str_includes s k \<longleftrightarrow> sublist k s"
  by (induction s) (auto simp: sublist_Cons_right)

subsection \<open>Web-search detection\<close>

text \<open>
  C4. \<open>needsWebSearch\<close> holds exactly when the lower-cased query contains one of the
  recency keywords or contains none of the platform keywords; in particular it holds for
  every query that contains no platform keyword.
\<close>

theorem needsWebSearch_iff:
  "(needsWebSearch query \<longleftrightarrow>
      (\<exists>k\<in>set [''latest'', ''recent'', ''new'', ''current'', ''today'', ''yesterday'', ''this week'',
                 ''this month'', ''this year'', ''update'', ''news'', ''2023'', ''2024'', ''2025''].
          sublist k (toLowerCase query))
      \<or> (\<forall>k\<in>set [''learnflow'', ''course'', ''assignment'', ''lecture'', ''professor'', ''class''].
            \<not> sublist k (toLowerCase query)))
   \<and> ((\<forall>k\<in>set [''learnflow'', ''course'', ''assignment'', ''lecture'', ''professor'', ''class''].
          \<not> sublist k (toLowerCase query)) \<longrightarrow> needsWebSearch query)"
  unfolding needsWebSearch_def currentEventKeywords_def Let_def list_ex_iff str_includes_sublist
  by simp

theorem needsWebSearch_iff_witness:
  "needsWebSearch ''What is photosynthesis?''
   \<and> needsWebSearch ''Latest assignment for my class''
   \<and> \<not> needsWebSearch ''Which lecture covers arrays''"
proof -
  have a: "\<forall>k\<in>set [''learnflow'', ''course'', ''assignment'', ''lecture'', ''professor'', ''class''].
          \<not> sublist k (toLowerCase ''What is photosynthesis?'')"
    by code_simp
  have b: "\<exists>k\<in>set [''latest'', ''recent'', ''new'', ''current'', ''today'', ''yesterday'', ''this week'',
                 ''this month'', ''this year'', ''update'', ''news'', ''2023'', ''2024'', ''2025''].
          sublist k (toLowerCase ''Latest assignment for my class'')"
    by code_simp
  have c: "\<not> ((\<exists>k\<in>set [''latest'', ''recent'', ''new'', ''current'', ''today'', ''yesterday'', ''this week'',
                 ''this month'', ''this year'', ''update'', ''news'', ''2023'', ''2024'', ''2025''].
          sublist k (toLowerCase ''Which lecture covers arrays''))
      \<or> (\<forall>k\<in>set [''learnflow'', ''course'', ''assignment'', ''lecture'', ''professor'', ''class''].
            \<not> sublist k (toLowerCase ''Which lecture covers arrays'')))"
    by code_simp
  show ?thesis
    using needsWebSearch_iff [of "''What is photosynthesis?''"] a
      needsWebSearch_iff [of "''Latest assignment for my class''"] b
      needsWebSearch_iff [of "''Which lecture covers arrays''"] c
    by blast
qed

subsection \<open>Resource search\<close>

lemma file_matches_sublist:
  "file_matches q f \<longleftrightarrow> sublist q (toLowerCase (file_name f)) \<or> sublist q (toLowerCase (file_path f))"
  by (simp add: file_matches_def str_includes_sublist)

lemma download_matches_sublist:
  "download_matches q d \<Longrightarrow>
     (\<exists>t. title d = Some t \<and> sublist q (toLowerCase t))
     \<or> (\<exists>t. description d = Some t \<and> sublist q (toLowerCase t))
     \<or> (\<exists>ts tag. tags d = Some ts \<and> tag \<in> set ts \<and> sublist q (toLowerCase tag))"
  by (auto simp: download_matches_def str_includes_sublist list_ex_iff split: option.splits)

text \<open>
  C9. For every state of the resource index and every query, the result of
  \<open>searchResources\<close> has \<open>totalResults\<close> equal to the sum of the lengths of its four
  lists; every entry of a list is an entry of the same category of the index; and the
  lower-cased query is a substring of the lower-cased name or path of every file returned,
  and of the lower-cased title, description or some tag of every download returned.
\<close>

theorem searchResources_sound:
  "(let r = searchResources db query; q = toLowerCase query
    in totalResults r = length (assignments r) + length (notes' r) + length (labManuals r)
                        + length (downloads r)
       \<and> set (assignments r) \<subseteq> set (assignments db)
       \<and> set (notes' r) \<subseteq> set (notes' db)
       \<and> set (labManuals r) \<subseteq> set (labManuals db)
       \<and> set (downloads r) \<subseteq> set (downloads db)
       \<and> (\<forall>f\<in>set (assignments r) \<union> set (notes' r) \<union> set (labManuals r).
             sublist q (toLowerCase (file_name f)) \<or> sublist q (toLowerCase (file_path f)))
       \<and> (\<forall>d\<in>set (downloads r).
             (\<exists>t. title d = Some t \<and> sublist q (toLowerCase t))
             \<or> (\<exists>t. description d = Some t \<and> sublist q (toLowerCase t))
             \<or> (\<exists>ts tag. tags d = Some ts \<and> tag \<in> set ts \<and> sublist q (toLowerCase tag))))"
proof -
  have files: "\<And>fs f. f \<in> set (filter (file_matches (toLowerCase query)) fs) \<Longrightarrow>
      sublist (toLowerCase query) (toLowerCase (file_name f))
      \<or> sublist (toLowerCase query) (toLowerCase (file_path f))"
    by (simp add: file_matches_sublist)
  have dls: "\<And>d. d \<in> set (filter (download_matches (toLowerCase query)) (downloads db)) \<Longrightarrow>
      (\<exists>t. title d = Some t \<and> sublist (toLowerCase query) (toLowerCase t))
      \<or> (\<exists>t. description d = Some t \<and> sublist (toLowerCase query) (toLowerCase t))
      \<or> (\<exists>ts tag. tags d = Some ts \<and> tag \<in> set ts \<and> sublist (toLowerCase query) (toLowerCase tag))"
    using download_matches_sublist by simp
  show ?thesis
    unfolding searchResources_def Let_def
    using files dls by (simp add: Ball_def) blast
qed

theorem searchResources_sound_witness:
  "(let kit = \<lparr>title = Some ''Sensor kit'', description = None, tags = Some [''iot''], url = None\<rparr>;
        sheet = \<lparr>file_name = ''Sheet1.pdf'', file_path = ''resources/assignments/Sheet1.pdf'',
                 fullPath = ''/srv/resources/assignments/Sheet1.pdf'', file_extension = ''.pdf'',
                 file_size = 10, modified = 0\<rparr>;
        r = searchResources \<lparr>assignments = [sheet], notes' = [], labManuals = [], downloads = [kit]\<rparr> ''IoT''
    in downloads r = [kit] \<and> assignments r = [] \<and> notes' r = [] \<and> labManuals r = []
       \<and> totalResults r = 1)"
proof -
  let ?kit = "\<lparr>title = Some ''Sensor kit'', description = None, tags = Some [''iot''], url = None\<rparr>"
  let ?sheet = "\<lparr>file_name = ''Sheet1.pdf'', file_path = ''resources/assignments/Sheet1.pdf'',
                 fullPath = ''/srv/resources/assignments/Sheet1.pdf'', file_extension = ''.pdf'',
                 file_size = 10, modified = 0\<rparr>"
  let ?db = "\<lparr>assignments = [?sheet], notes' = [], labManuals = [], downloads = [?kit]\<rparr>"
  have lists: "downloads (searchResources ?db ''IoT'') = [?kit]"
    "assignments (searchResources ?db ''IoT'') = []"
    "notes' (searchResources ?db ''IoT'') = []"
    "labManuals (searchResources ?db ''IoT'') = []"
    by code_simp+
  from searchResources_sound [of ?db "''IoT''"]
  have "totalResults (searchResources ?db ''IoT'') = 1"
    unfolding Let_def lists by simp
  with lists show ?thesis by (simp add: Let_def)
qed

subsection \<open>Fallback replies\<close>

lemma failure_generate_text:
  "gateway_failure (gemini env req) \<Longrightarrow> \<exists>e. generate_text env req = Inl e"
  unfolding gateway_failure_def generate_text_def has_candidate_content_def candidate_text_def
  by (auto split: gateway_outcome.splits sum.splits)

text \<open>
  A payload whose text the handler accepts has the candidate and content structure: every
  other payload is a failure, and so is one that has the structure and no
  \<^verbatim>\<open>parts[0]\<close> to read the text from.
\<close>

lemma accepted_payload_has_content:
  assumes "candidate_text data = Inr text"
  shows "has_candidate_content data"
  using assms unfolding candidate_text_def has_candidate_content_def
  by (auto split: sum.splits if_splits)

lemma chat_fallback:
  assumes msgs: "messages = Some (JArr msgs)"
    and latest: "find_user (rev msgs) = Inr (Some latestUserMessage)"
    and content: "get_prop (Some latestUserMessage) ''content'' = Inr (Some (JStr content))"
    and uc: "userContent = trim content"
    and chat: "\<not> startsWith userContent ''/scan''" "\<not> startsWith userContent ''/debug''"
    and prompt: "fullPrompt env msgs userContent = Inr p"
    and fails: "gateway_failure (gemini env \<lparr>prompt = p, temperature_tenths = 7, maxOutputTokens = 800\<rparr>)"
  shows "chat_handler env messages =
           \<lparr>status = 200, body = MessageBody ''assistant'' (Some (JStr (fallbackResponse userContent)))\<rparr>"
proof -
  from failure_generate_text [OF fails] obtain e where
    "generate_text env \<lparr>prompt = p, temperature_tenths = 7, maxOutputTokens = 800\<rparr> = Inl e" ..
  then have "handle_chat env messages =
      Inr (assistant_message (Some (JStr (fallbackResponse userContent))))"
    using msgs latest content uc chat prompt
    by (simp add: handle_chat_def answer_message_def truthy_def isArray_def chat_reply_def Let_def)
  then show ?thesis
    by (simp add: chat_handler_def assistant_message_def)
qed

lemma offline_failure: "gateway_failure (gemini offline_environment req)"
  by (simp add: gateway_failure_def offline_environment_def)

lemma overloaded_failure: "gateway_failure (gemini overloaded_environment req)"
  by (simp add: gateway_failure_def overloaded_environment_def has_candidate_content_def
      get_prop_def truthy_def)

lemma single_message_prompt:
  "\<exists>p. fullPrompt env [user_message content] userContent = Inr p"
  by (simp add: fullPrompt_def conversationHistory_def slice_last_def user_message_def get_prop_def
      join_item_def)

lemma single_message_latest:
  "find_user (rev [user_message content]) = Inr (Some (user_message content))"
  "get_prop (Some (user_message content)) ''content'' = Inr (Some (JStr content))"
  by (simp_all add: user_message_def get_prop_def)

text \<open>
  C1. A chat request that reaches the call of the generation endpoint (the latest user
  message has a string content that is no scan command, and the conversation history can
  be built) and whose call fails, by a transport error, by a body that is no JSON text
  or by a payload without the candidate and content structure, whatever the HTTP status
  of the answer, is answered with HTTP 200 and an assistant message holding the fallback
  text for the query. The fallback text is the greeting when the lower-cased query
  contains "hello"; it is the assignment text when the query contains "assignment" and
  none of "hello", "hi", "help", "course", "class", which the handler tests before; and it is
  the text about connection issues when the query contains none of the nine keywords.
\<close>

theorem gateway_failure_fallback:
  assumes msgs: "messages = Some (JArr msgs)"
    and latest: "find_user (rev msgs) = Inr (Some latestUserMessage)"
    and content: "get_prop (Some latestUserMessage) ''content'' = Inr (Some (JStr content))"
    and uc: "userContent = trim content"
    and chat: "\<not> startsWith userContent ''/scan''" "\<not> startsWith userContent ''/debug''"
    and prompt: "fullPrompt env msgs userContent = Inr p"
    and fails: "gateway_failure (gemini env \<lparr>prompt = p, temperature_tenths = 7, maxOutputTokens = 800\<rparr>)"
  shows "chat_handler env messages =
           \<lparr>status = 200, body = MessageBody ''assistant'' (Some (JStr (fallbackResponse userContent)))\<rparr>
         \<and> (sublist ''hello'' (toLowerCase userContent) \<longrightarrow>
              fallbackResponse userContent =
                ''Hello! I'm LearnFlow Assistant. How can I help you with your educational needs today?'')
         \<and> (sublist ''assignment'' (toLowerCase userContent)
              \<and> (\<forall>k\<in>set [''hello'', ''hi'', ''help'', ''course'', ''class''].
                    \<not> sublist k (toLowerCase userContent)) \<longrightarrow>
              fallbackResponse userContent =
                ''For assignment help, please check the specific course page where all assignments are listed with their due dates and requirements.'')
         \<and> ((\<forall>k\<in>set [''hello'', ''hi'', ''help'', ''course'', ''class'', ''assignment'', ''homework'',
                        ''resource'', ''material''].
                \<not> sublist k (toLowerCase userContent)) \<longrightarrow>
              fallbackResponse userContent =
                ''I'm currently experiencing connection issues with my knowledge base. Please try again later or rephrase your question.'')"
proof -
  note resp = chat_fallback [OF assms]
  show ?thesis
    unfolding resp by (simp add: fallbackResponse_def str_includes_sublist)
qed

theorem gateway_failure_fallback_witness:
  "chat_handler offline_environment (Some (JArr [user_message ''  Hello there '']))  =
     \<lparr>status = 200,
      body = MessageBody ''assistant''
        (Some (JStr ''Hello! I'm LearnFlow Assistant. How can I help you with your educational needs today?''))\<rparr>
   \<and> chat_handler offline_environment (Some (JArr [user_message ''My assignment is due'']))  =
     \<lparr>status = 200,
      body = MessageBody ''assistant''
        (Some (JStr ''For assignment help, please check the specific course page where all assignments are listed with their due dates and requirements.''))\<rparr>
   \<and> chat_handler overloaded_environment (Some (JArr [user_message ''What is a mole?'']))  =
     \<lparr>status = 200,
      body = MessageBody ''assistant''
        (Some (JStr ''I'm currently experiencing connection issues with my knowledge base. Please try again later or rephrase your question.''))\<rparr>"
proof -
  obtain p where p: "fullPrompt offline_environment [user_message ''  Hello there ''] ''Hello there'' = Inr p"
    using single_message_prompt by blast
  have uc1: "''Hello there'' = trim ''  Hello there ''" by code_simp
  have chat1: "\<not> startsWith ''Hello there'' ''/scan''" "\<not> startsWith ''Hello there'' ''/debug''"
    by code_simp+
  have hello: "sublist ''hello'' (toLowerCase ''Hello there'')"
    by code_simp
  note thm1 = gateway_failure_fallback [OF refl single_message_latest uc1 chat1 p offline_failure]
  from thm1 have resp1: "chat_handler offline_environment (Some (JArr [user_message ''  Hello there ''])) =
      \<lparr>status = 200, body = MessageBody ''assistant'' (Some (JStr (fallbackResponse ''Hello there'')))\<rparr>"
    by (rule conjunct1)
  have text1: "fallbackResponse ''Hello there'' = ''Hello! I'm LearnFlow Assistant. How can I help you with your educational needs today?''"
    by (rule thm1 [THEN conjunct2, THEN conjunct1, THEN mp, OF hello])
  obtain q where q: "fullPrompt offline_environment [user_message ''My assignment is due''] ''My assignment is due'' = Inr q"
    using single_message_prompt by blast
  have uc2: "''My assignment is due'' = trim ''My assignment is due''" by code_simp
  have chat2: "\<not> startsWith ''My assignment is due'' ''/scan''" "\<not> startsWith ''My assignment is due'' ''/debug''"
    by code_simp+
  have assignment: "sublist ''assignment'' (toLowerCase ''My assignment is due'') \<and> (\<forall>k\<in>set [''hello'', ''hi'', ''help'', ''course'', ''class'']. \<not> sublist k (toLowerCase ''My assignment is due''))"
    by code_simp
  note thm2 = gateway_failure_fallback [OF refl single_message_latest uc2 chat2 q offline_failure]
  from thm2 have resp2: "chat_handler offline_environment (Some (JArr [user_message ''My assignment is due''])) =
      \<lparr>status = 200, body = MessageBody ''assistant'' (Some (JStr (fallbackResponse ''My assignment is due'')))\<rparr>"
    by (rule conjunct1)
  have text2: "fallbackResponse ''My assignment is due'' = ''For assignment help, please check the specific course page where all assignments are listed with their due dates and requirements.''"
    by (rule thm2 [THEN conjunct2, THEN conjunct2, THEN conjunct1, THEN mp, OF assignment])
  obtain r where r: "fullPrompt overloaded_environment [user_message ''What is a mole?''] ''What is a mole?'' = Inr r"
    using single_message_prompt by blast
  have uc3: "''What is a mole?'' = trim ''What is a mole?''" by code_simp
  have chat3: "\<not> startsWith ''What is a mole?'' ''/scan''" "\<not> startsWith ''What is a mole?'' ''/debug''"
    by code_simp+
  have unmatched: "\<forall>k\<in>set [''hello'', ''hi'', ''help'', ''course'', ''class'', ''assignment'', ''homework'', ''resource'', ''material'']. \<not> sublist k (toLowerCase ''What is a mole?'')"
    by code_simp
  note thm3 = gateway_failure_fallback [OF refl single_message_latest uc3 chat3 r overloaded_failure]
  from thm3 have resp3: "chat_handler overloaded_environment (Some (JArr [user_message ''What is a mole?''])) =
      \<lparr>status = 200, body = MessageBody ''assistant'' (Some (JStr (fallbackResponse ''What is a mole?'')))\<rparr>"
    by (rule conjunct1)
  have text3: "fallbackResponse ''What is a mole?'' = ''I'm currently experiencing connection issues with my knowledge base. Please try again later or rephrase your question.''"
    by (rule thm3 [THEN conjunct2, THEN conjunct2, THEN conjunct2, THEN mp, OF unmatched])
  show ?thesis unfolding resp1 resp2 resp3 text1 text2 text3 by simp
qed

text \<open>
  The handler tests "help" before "assignment": a query that contains both gets the help
  text, not the assignment text. And it does not read the HTTP status of the answer: a
  payload of the expected shape that comes with the status 500 is passed on as the
  reply, and no fallback text is chosen.
\<close>

theorem fallback_assignment_counterexample:
  "sublist ''assignment'' (toLowerCase ''Help with my assignment'')
   \<and> chat_handler offline_environment (Some (JArr [user_message ''Help with my assignment''])) =
       \<lparr>status = 200,
        body = MessageBody ''assistant''
          (Some (JStr ''I'm here to help with your educational questions. You can ask me about courses, assignments, or study resources.''))\<rparr>
   \<and> chat_handler answering_environment (Some (JArr [user_message ''hello''])) =
       \<lparr>status = 200, body = MessageBody ''assistant'' (Some (JStr ''Hi!''))\<rparr>"
proof -
  obtain p where p: "fullPrompt offline_environment [user_message ''Help with my assignment'']
       ''Help with my assignment'' = Inr p"
    using single_message_prompt by blast
  have uc: "''Help with my assignment'' = trim ''Help with my assignment''" by code_simp
  have chat: "\<not> startsWith ''Help with my assignment'' ''/scan''"
    "\<not> startsWith ''Help with my assignment'' ''/debug''"
    by code_simp+
  have fb: "fallbackResponse ''Help with my assignment'' =
     ''I'm here to help with your educational questions. You can ask me about courses, assignments, or study resources.''"
    by code_simp
  have sub: "sublist ''assignment'' (toLowerCase ''Help with my assignment'')" by code_simp
  obtain q where q: "fullPrompt answering_environment [user_message ''hello''] ''hello'' = Inr q"
    using single_message_prompt by blast
  have uc': "trim ''hello'' = ''hello''" by code_simp
  have chat': "\<not> startsWith ''hello'' ''/scan''" "\<not> startsWith ''hello'' ''/debug''"
    by code_simp+
  have "generate_text answering_environment \<lparr>prompt = q, temperature_tenths = 7, maxOutputTokens = 800\<rparr>
      = Inr (Some (JStr ''Hi!''))"
    by (simp add: generate_text_def answering_environment_def candidate_text_def get_prop_def
        get_index0_def truthy_def)
  then have "handle_chat answering_environment (Some (JArr [user_message ''hello''])) =
      Inr (assistant_message (Some (JStr ''Hi!'')))"
    using single_message_latest [of "''hello''"] uc' chat' q
    by (simp add: handle_chat_def answer_message_def truthy_def isArray_def chat_reply_def Let_def)
  then have passed: "chat_handler answering_environment (Some (JArr [user_message ''hello''])) =
      \<lparr>status = 200, body = MessageBody ''assistant'' (Some (JStr ''Hi!''))\<rparr>"
    by (simp add: chat_handler_def assistant_message_def)
  from chat_fallback [OF refl single_message_latest uc chat p offline_failure] fb sub passed
  show ?thesis by simp
qed

subsection \<open>Input validation\<close>

lemma not_array_rejected:
  assumes "\<forall>msgs. messages \<noteq> Some (JArr msgs)"
  shows "chat_handler env messages = \<lparr>status = 400, body = ErrorBody ''Messages array is required''\<rparr>"
proof -
  have "\<not> isArray messages"
    using assms by (auto simp: isArray_def split: option.splits json.splits)
  then show ?thesis by (simp add: chat_handler_def handle_chat_def)
qed

lemma get_prop_role:
  "msg \<noteq> JNull \<Longrightarrow>
   \<exists>role. get_prop (Some msg) ''role'' = Inr role \<and> (role = Some (JStr ''user'') \<longleftrightarrow> has_role_user msg)"
  by (cases msg) (auto simp: get_prop_def has_role_user_def)

lemma find_user_none:
  "JNull \<notin> set msgs \<Longrightarrow> \<forall>m\<in>set msgs. \<not> has_role_user m \<Longrightarrow> find_user msgs = Inr None"
proof (induction msgs)
  case Nil
  then show ?case by simp
next
  case (Cons m msgs)
  then have "m \<noteq> JNull" by auto
  from get_prop_role [OF this] Cons show ?case by auto
qed

lemma find_user_some:
  "JNull \<notin> set msgs \<Longrightarrow> \<exists>m\<in>set msgs. has_role_user m \<Longrightarrow>
   \<exists>m. find_user msgs = Inr (Some m) \<and> m \<in> set msgs \<and> has_role_user m"
proof (induction msgs)
  case Nil
  then show ?case by simp
next
  case (Cons m msgs)
  then have "m \<noteq> JNull" by auto
  from get_prop_role [OF this] obtain role where
    role: "get_prop (Some m) ''role'' = Inr role" "role = Some (JStr ''user'') \<longleftrightarrow> has_role_user m"
    by blast
  show ?case
  proof (cases "has_role_user m")
    case True
    with role show ?thesis by auto
  next
    case False
    with Cons role show ?thesis by auto
  qed
qed

lemma validation_without_null:
  assumes "JNull \<notin> set msgs"
  shows "(\<forall>m\<in>set msgs. \<not> has_role_user m) \<longrightarrow>
           chat_handler env (Some (JArr msgs)) = \<lparr>status = 400, body = ErrorBody ''No user message found''\<rparr>"
    and "(\<exists>m\<in>set msgs. has_role_user m) \<longrightarrow>
           (\<exists>m. m \<in> set msgs \<and> has_role_user m
                \<and> handle_chat env (Some (JArr msgs)) = answer_message env msgs m)"
proof -
  have nn: "JNull \<notin> set (rev msgs)" using assms by simp
  show "(\<forall>m\<in>set msgs. \<not> has_role_user m) \<longrightarrow>
           chat_handler env (Some (JArr msgs)) = \<lparr>status = 400, body = ErrorBody ''No user message found''\<rparr>"
    using find_user_none [OF nn]
    by (simp add: chat_handler_def handle_chat_def truthy_def isArray_def)
  show "(\<exists>m\<in>set msgs. has_role_user m) \<longrightarrow>
           (\<exists>m. m \<in> set msgs \<and> has_role_user m
                \<and> handle_chat env (Some (JArr msgs)) = answer_message env msgs m)"
  proof
    assume "\<exists>m\<in>set msgs. has_role_user m"
    then have "\<exists>m\<in>set (rev msgs). has_role_user m" by simp
    from find_user_some [OF nn this] show "\<exists>m. m \<in> set msgs \<and> has_role_user m
                \<and> handle_chat env (Some (JArr msgs)) = answer_message env msgs m"
      by (auto simp: handle_chat_def truthy_def isArray_def)
  qed
qed

text \<open>
  C6. A \<open>messages\<close> field that is absent or is not an array is answered with HTTP 400 and
  no assistant content, and so is an array without a \<^verbatim>\<open>null\<close> element in which no element
  has role "user"; an array without \<^verbatim>\<open>null\<close> that has a user message goes on past the
  validation (\<open>not_array_rejected\<close>, \<open>validation_without_null\<close>). An array with a \<^verbatim>\<open>null\<close>
  element that the search from the end reaches is not handled so: reading \<^verbatim>\<open>msg.role\<close>
  throws, and the handler answers with HTTP 500 and an assistant message. For
  \<^verbatim>\<open>[null]\<close>, in which no element has role "user", the answer is 500 and not 400.
\<close>

theorem null_message_answered_500:
  "\<not> has_role_user JNull
   \<and> chat_handler env (Some (JArr [JNull])) =
       \<lparr>status = 500,
        body = ErrorMessageBody ''Failed to process your request'' ''assistant''
                 ''I'm sorry, I encountered an error processing your request. Please try again later.''\<rparr>"
  by (simp add: chat_handler_def handle_chat_def truthy_def isArray_def get_prop_def has_role_user_def)

subsection \<open>Scan commands\<close>









subsection \<open>The matcher and the meaning of an expression\<close>

lemma take_run:
  "(\<exists>n. lo \<le> n \<and> n \<le> m \<and> n \<le> length (takeWhile p rest) \<and> c = take n rest)
   \<longleftrightarrow> (\<exists>post. rest = c @ post) \<and> list_all p c \<and> lo \<le> length c \<and> length c \<le> m"
proof
  assume "\<exists>n. lo \<le> n \<and> n \<le> m \<and> n \<le> length (takeWhile p rest) \<and> c = take n rest"
  then obtain n where n: "lo \<le> n" "n \<le> m" "n \<le> length (takeWhile p rest)" "c = take n rest"
    by blast
  have le: "n \<le> length rest" using n(3) length_takeWhile_le [of p rest] by (rule order_trans)
  have "take n rest = take n (takeWhile p rest)"
    using n(3) by (metis takeWhile_dropWhile_id take_all take_append diff_is_0_eq' append_Nil2 take_0 nle_le)
  then have "set c \<subseteq> set (takeWhile p rest)" using n(4) by (metis set_take_subset)
  then have "list_all p c" by (auto simp: list_all_iff dest: set_takeWhileD)
  moreover have "rest = c @ drop n rest" using n(4) by simp
  moreover have "length c = n" using n(4) le by simp
  ultimately show "(\<exists>post. rest = c @ post) \<and> list_all p c \<and> lo \<le> length c \<and> length c \<le> m"
    using n(1,2) by blast
next
  assume r: "(\<exists>post. rest = c @ post) \<and> list_all p c \<and> lo \<le> length c \<and> length c \<le> m"
  then obtain post where post: "rest = c @ post" by blast
  have "takeWhile p rest = c @ takeWhile p post"
    using r post by (simp add: takeWhile_append2 list_all_iff)
  then have "length c \<le> length (takeWhile p rest)" by simp
  moreover have "c = take (length c) rest" using post by simp
  ultimately show "\<exists>n. lo \<le> n \<and> n \<le> m \<and> n \<le> length (takeWhile p rest) \<and> c = take n rest"
    using r by blast
qed

lemma run_bound:
  "rest = c @ post \<Longrightarrow> list_all p c \<Longrightarrow> length c \<le> length (takeWhile p rest)"
  by (simp add: takeWhile_append2 list_all_iff)

lemma in_rep_list:
  "(c, k) \<in> set (map (\<lambda>n. (take n rest, [])) (rev [lo..<Suc m]))
   \<longleftrightarrow> k = [] \<and> (\<exists>n. lo \<le> n \<and> n \<le> m \<and> c = take n rest)"
  by (auto simp: image_iff less_Suc_eq_le)

lemma rx_match_sem:
  "(c, k) \<in> set (rx_match r prev rest) \<longleftrightarrow> (\<exists>post. rest = c @ post \<and> rx_sem r prev c post k)"
proof (induction r arbitrary: prev rest c k)
  case Eps
  show ?case by auto
next
  case (Cls p)
  show ?case by (cases rest) auto
next
  case (LitCI w)
  show ?case
  proof
    assume "(c, k) \<in> set (rx_match (LitCI w) prev rest)"
    then have h: "length w \<le> length rest" "map canonicalize (take (length w) rest) = map canonicalize w"
      "c = take (length w) rest" "k = []"
      by (auto split: if_splits)
    have "rest = c @ drop (length w) rest" using h(3) by simp
    moreover have "rx_sem (LitCI w) prev c (drop (length w) rest) k" using h by simp
    ultimately show "\<exists>post. rest = c @ post \<and> rx_sem (LitCI w) prev c post k" by blast
  next
    assume "\<exists>post. rest = c @ post \<and> rx_sem (LitCI w) prev c post k"
    then obtain post where p: "rest = c @ post" "map canonicalize c = map canonicalize w" "k = []"
      by auto
    from p(2) have "length c = length w" by (metis length_map)
    with p show "(c, k) \<in> set (rx_match (LitCI w) prev rest)" by simp
  qed
next
  case (Seq a b)
  show ?case
  proof
    assume "(c, k) \<in> set (rx_match (Seq a b) prev rest)"
    then obtain c1 k1 c2 k2 where
      m1: "(c1, k1) \<in> set (rx_match a prev rest)" and
      m2: "(c2, k2) \<in> set (rx_match b (prev_after prev c1) (drop (length c1) rest))" and
      ck: "c = c1 @ c2" "k = k1 @ k2"
      by auto
    from m1 Seq.IH(1) obtain post1 where p1: "rest = c1 @ post1" "rx_sem a prev c1 post1 k1" by blast
    from m2 Seq.IH(2) obtain post2 where p2: "drop (length c1) rest = c2 @ post2"
      "rx_sem b (prev_after prev c1) c2 post2 k2" by blast
    from p1(1) p2(1) have "post1 = c2 @ post2" by simp
    with p1 p2 ck show "\<exists>post. rest = c @ post \<and> rx_sem (Seq a b) prev c post k"
      by auto
  next
    assume "\<exists>post. rest = c @ post \<and> rx_sem (Seq a b) prev c post k"
    then obtain post c1 c2 k1 k2 where s: "rest = c @ post" "c = c1 @ c2" "k = k1 @ k2"
      "rx_sem a prev c1 (c2 @ post) k1" "rx_sem b (prev_after prev c1) c2 post k2"
      by auto
    have "(c1, k1) \<in> set (rx_match a prev rest)"
      using Seq.IH(1) [of c1 k1 prev rest] s by auto
    moreover have "(c2, k2) \<in> set (rx_match b (prev_after prev c1) (drop (length c1) rest))"
      using Seq.IH(2) [of c2 k2 "prev_after prev c1" "drop (length c1) rest"] s by auto
    ultimately show "(c, k) \<in> set (rx_match (Seq a b) prev rest)"
      using s(2,3) by force
  qed
next
  case (Alt a b)
  then show ?case by auto
next
  case (Opt a)
  then show ?case by auto
next
  case (Rep lo hi p)
  show ?case
  proof (cases hi)
    case None
    have "(c, k) \<in> set (rx_match (Rep lo hi p) prev rest) \<longleftrightarrow>
      k = [] \<and> (\<exists>n. lo \<le> n \<and> n \<le> length (takeWhile p rest) \<and> n \<le> length (takeWhile p rest) \<and> c = take n rest)"
      unfolding rx_match.simps Let_def None option.case in_rep_list by auto
    also have "\<dots> \<longleftrightarrow> k = [] \<and> (\<exists>post. rest = c @ post) \<and> list_all p c \<and> lo \<le> length c
        \<and> length c \<le> length (takeWhile p rest)"
      by (simp only: take_run)
    also have "\<dots> \<longleftrightarrow> (\<exists>post. rest = c @ post \<and> rx_sem (Rep lo hi p) prev c post k)"
      using None run_bound [of rest c _ p] by auto
    finally show ?thesis .
  next
    case (Some h)
    have "(c, k) \<in> set (rx_match (Rep lo hi p) prev rest) \<longleftrightarrow>
      k = [] \<and> (\<exists>n. lo \<le> n \<and> n \<le> h \<and> n \<le> length (takeWhile p rest) \<and> c = take n rest)"
      unfolding rx_match.simps Let_def Some option.case in_rep_list by auto
    also have "\<dots> \<longleftrightarrow> k = [] \<and> (\<exists>post. rest = c @ post) \<and> list_all p c \<and> lo \<le> length c \<and> length c \<le> h"
      by (simp only: take_run)
    also have "\<dots> \<longleftrightarrow> (\<exists>post. rest = c @ post \<and> rx_sem (Rep lo hi p) prev c post k)"
      using Some by auto
    finally show ?thesis .
  qed
next
  case WordB
  show ?case by auto
next
  case (Grp n a)
  then show ?case by auto
qed


lemma prev_after_Cons: "prev_after prev (c # pre) = prev_after (Some c) pre"
  by (simp add: prev_after_def)

lemma rx_search_here:
  "rx_match r prev rest \<noteq> [] \<Longrightarrow> rx_search r prev rest = Some (hd (rx_match r prev rest))"
  by (cases rest; cases "rx_match r prev rest") auto

lemma rx_search_skip:
  "rx_match r prev (c # cs) = [] \<Longrightarrow> rx_search r prev (c # cs) = rx_search r (Some c) cs"
  by simp

lemma rx_search_leftmost:
  assumes "rest = pre @ post"
    and "rx_match r (prev_after prev pre) post \<noteq> []"
    and "\<forall>pre' post'. rest = pre' @ post' \<and> length pre' < length pre \<longrightarrow>
           rx_match r (prev_after prev pre') post' = []"
  shows "rx_search r prev rest = Some (hd (rx_match r (prev_after prev pre) post))"
  using assms
proof (induction pre arbitrary: prev rest)
  case Nil
  then show ?case by (simp add: rx_search_here prev_after_def)
next
  case (Cons c pre)
  have rest: "rest = c # (pre @ post)" using Cons.prems(1) by simp
  have "rx_match r (prev_after prev []) rest = []"
    using Cons.prems(3) by (metis append_Nil length_greater_0_conv list.distinct(1) list.size(3))
  then have skip: "rx_search r prev rest = rx_search r (Some c) (pre @ post)"
    using rest by (simp add: prev_after_def)
  have earlier: "\<forall>pre' post'. pre @ post = pre' @ post' \<and> length pre' < length pre \<longrightarrow>
           rx_match r (prev_after (Some c) pre') post' = []"
  proof (intro allI impI)
    fix pre' post'
    assume h: "pre @ post = pre' @ post' \<and> length pre' < length pre"
    then have "rest = (c # pre') @ post' \<and> length (c # pre') < length (c # pre)"
      using rest by simp
    with Cons.prems(3) have "rx_match r (prev_after prev (c # pre')) post' = []" by blast
    then show "rx_match r (prev_after (Some c) pre') post' = []" by (simp add: prev_after_Cons)
  qed
  have "rx_match r (prev_after (Some c) pre) post \<noteq> []"
    using Cons.prems(2) by (simp add: prev_after_Cons)
  from Cons.IH [OF refl this earlier] skip show ?case by (simp add: prev_after_Cons)
qed

lemma rx_search_None_iff:
  "rx_search r prev rest = None \<longleftrightarrow>
     (\<forall>pre post. rest = pre @ post \<longrightarrow> rx_match r (prev_after prev pre) post = [])"
proof (induction rest arbitrary: prev)
  case Nil
  show ?case by (auto simp: prev_after_def split: list.splits)
next
  case (Cons c cs)
  show ?case
  proof (cases "rx_match r prev (c # cs)")
    case (Cons m ms)
    then have "rx_search r prev (c # cs) \<noteq> None" by simp
    moreover have "\<not> (\<forall>pre post. c # cs = pre @ post \<longrightarrow> rx_match r (prev_after prev pre) post = [])"
      using Cons by (metis append_Nil list.distinct(1) prev_after_def)
    ultimately show ?thesis by blast
  next
    case Nil
    then have skip: "rx_search r prev (c # cs) = rx_search r (Some c) cs" by simp
    have "(\<forall>pre post. c # cs = pre @ post \<longrightarrow> rx_match r (prev_after prev pre) post = [])
          \<longleftrightarrow> (\<forall>pre post. cs = pre @ post \<longrightarrow> rx_match r (prev_after (Some c) pre) post = [])"
    proof
      assume a: "\<forall>pre post. c # cs = pre @ post \<longrightarrow> rx_match r (prev_after prev pre) post = []"
      show "\<forall>pre post. cs = pre @ post \<longrightarrow> rx_match r (prev_after (Some c) pre) post = []"
      proof (intro allI impI)
        fix pre post assume "cs = pre @ post"
        then have "c # cs = (c # pre) @ post" by simp
        with a have "rx_match r (prev_after prev (c # pre)) post = []" by blast
        then show "rx_match r (prev_after (Some c) pre) post = []" by (simp add: prev_after_Cons)
      qed
    next
      assume b: "\<forall>pre post. cs = pre @ post \<longrightarrow> rx_match r (prev_after (Some c) pre) post = []"
      show "\<forall>pre post. c # cs = pre @ post \<longrightarrow> rx_match r (prev_after prev pre) post = []"
      proof (intro allI impI)
        fix pre post assume h: "c # cs = pre @ post"
        show "rx_match r (prev_after prev pre) post = []"
        proof (cases pre)
          case Nil
          with h \<open>rx_match r prev (c # cs) = []\<close> show ?thesis by (simp add: prev_after_def)
        next
          case (Cons x pre')
          with h have "x = c" "cs = pre' @ post" by simp_all
          with b Cons show ?thesis by (simp add: prev_after_Cons)
        qed
      qed
    qed
    with skip Cons.IH [of "Some c"] show ?thesis by simp
  qed
qed

subsection \<open>Comparing without case\<close>

lemma of_char_lt: "(of_char c :: nat) < 256"
  by (cases c) (simp add: of_char_def)

lemma of_char_upper:
  "(of_char (toUpperCase_char c) :: nat) =
     (if (97 \<le> (of_char c :: nat) \<and> (of_char c :: nat) \<le> 122)
         \<or> (224 \<le> (of_char c :: nat) \<and> (of_char c :: nat) \<le> 254 \<and> (of_char c :: nat) \<noteq> 247)
      then of_char c - 32 else of_char c)"
proof -
  have "(of_char c - 32 :: nat) < 256" using of_char_lt [of c] by arith
  then show ?thesis by (simp add: toUpperCase_char_def Let_def)
qed

lemma of_char_lower:
  "(of_char (toLowerCase_char c) :: nat) =
     (if (65 \<le> (of_char c :: nat) \<and> (of_char c :: nat) \<le> 90)
         \<or> (192 \<le> (of_char c :: nat) \<and> (of_char c :: nat) \<le> 222 \<and> (of_char c :: nat) \<noteq> 215)
      then of_char c + 32 else of_char c)"
proof -
  have "(of_char c :: nat) \<le> 222 \<Longrightarrow> (of_char c + 32 :: nat) < 256" by arith
  then show ?thesis by (auto simp add: toLowerCase_char_def Let_def)
qed

lemma lower_upper: "toLowerCase_char (toUpperCase_char c) = toLowerCase_char c"
proof -
  have "(of_char (toLowerCase_char (toUpperCase_char c)) :: nat) = of_char (toLowerCase_char c)"
    unfolding of_char_lower [of "toUpperCase_char c"] of_char_upper of_char_lower [of c]
    by (simp split: if_splits) arith
  then show ?thesis by (simp only: of_char_eq_iff)
qed

lemma upper_lower: "toUpperCase_char (toLowerCase_char c) = toUpperCase_char c"
proof -
  have "(of_char (toUpperCase_char (toLowerCase_char c)) :: nat) = of_char (toUpperCase_char c)"
    unfolding of_char_upper [of "toLowerCase_char c"] of_char_lower of_char_upper [of c]
    by (simp split: if_splits)
  then show ?thesis by (simp only: of_char_eq_iff)
qed

lemma same_letter:
  "(toUpperCase_char c = toUpperCase_char p) \<longleftrightarrow> (toLowerCase_char c = toLowerCase_char p)"
  by (metis lower_upper upper_lower)


lemma same_word:
  "(map canonicalize w = map canonicalize v) \<longleftrightarrow> (toLowerCase w = toLowerCase v)"
proof (induction w arbitrary: v)
  case Nil
  show ?case by (simp add: toLowerCase_def)
next
  case (Cons c w)
  show ?case
  proof (cases v)
    case Nil
    then show ?thesis by (simp add: toLowerCase_def)
  next
    case (Cons d v')
    with Cons.IH [of v'] show ?thesis
      by (simp add: toLowerCase_def canonicalize_def same_letter)
  qed
qed

subsection \<open>Acceptance without captures\<close>

lemma accepts_Eps: "rx_accepts Eps prev c post \<longleftrightarrow> c = []"
  by (simp add: rx_accepts_def)

lemma accepts_Cls: "rx_accepts (Cls p) prev c post \<longleftrightarrow> (\<exists>x. c = [x] \<and> p x)"
  by (simp add: rx_accepts_def)

lemma accepts_LitCI: "rx_accepts (LitCI w) prev c post \<longleftrightarrow> toLowerCase c = toLowerCase w"
  by (simp add: rx_accepts_def same_word)

lemma accepts_Seq:
  "rx_accepts (Seq a b) prev c post \<longleftrightarrow>
     (\<exists>c1 c2. c = c1 @ c2 \<and> rx_accepts a prev c1 (c2 @ post) \<and> rx_accepts b (prev_after prev c1) c2 post)"
  unfolding rx_accepts_def rx_sem.simps by blast

lemma accepts_Alt:
  "rx_accepts (Alt a b) prev c post \<longleftrightarrow> rx_accepts a prev c post \<or> rx_accepts b prev c post"
  unfolding rx_accepts_def rx_sem.simps by blast

lemma accepts_Opt: "rx_accepts (Opt a) prev c post \<longleftrightarrow> rx_accepts a prev c post \<or> c = []"
  unfolding rx_accepts_def rx_sem.simps by blast

lemma accepts_Rep:
  "rx_accepts (Rep lo hi p) prev c post \<longleftrightarrow>
     list_all p c \<and> lo \<le> length c \<and> (case hi of None \<Rightarrow> True | Some h \<Rightarrow> length c \<le> h)"
  by (simp add: rx_accepts_def)

lemma accepts_WordB: "rx_accepts WordB prev c post \<longleftrightarrow> c = [] \<and> at_boundary prev post"
  by (simp add: rx_accepts_def)

lemma accepts_Grp: "rx_accepts (Grp n a) prev c post \<longleftrightarrow> rx_accepts a prev c post"
  by (simp add: rx_accepts_def)

lemmas accepts_simps = accepts_Eps accepts_Cls accepts_LitCI accepts_Seq accepts_Alt accepts_Opt
  accepts_Rep accepts_WordB accepts_Grp

lemma rx_match_accepts:
  "rx_match r prev rest \<noteq> [] \<longleftrightarrow> (\<exists>c post. rest = c @ post \<and> rx_accepts r prev c post)"
proof -
  have "rx_match r prev rest \<noteq> [] \<longleftrightarrow> (\<exists>c k. (c, k) \<in> set (rx_match r prev rest))"
    by (cases "rx_match r prev rest") auto
  then show ?thesis unfolding rx_match_sem rx_accepts_def by blast
qed

lemma letter_of_lower: "is_letter (toLowerCase_char c) \<Longrightarrow> is_letter c"
  unfolding is_letter_def Let_def of_char_lower by (simp split: if_splits) arith

lemma toLowerCase_append: "toLowerCase (a @ b) = toLowerCase a @ toLowerCase b"
  by (simp add: toLowerCase_def)

lemma toLowerCase_length: "length (toLowerCase a) = length a"
  by (simp add: toLowerCase_def)

lemma toLowerCase_take_drop:
  "toLowerCase (take n a) = take n (toLowerCase a)" "toLowerCase (drop n a) = drop n (toLowerCase a)"
  by (simp_all add: toLowerCase_def take_map drop_map)

lemma lower_ends_in_letter:
  assumes "toLowerCase w = v" "v \<noteq> []" "is_letter (last v)"
  shows "w \<noteq> [] \<and> is_word_char (last w)"
proof -
  from assms(1,2) have ne: "w \<noteq> []" by (auto simp: toLowerCase_def)
  then have "last v = toLowerCase_char (last w)"
    using assms(1) by (auto simp: toLowerCase_def last_map)
  with assms(3) have "is_letter (last w)" by (simp add: letter_of_lower)
  with ne show ?thesis by (simp add: is_word_char_def)
qed

lemma lower_literals:
  "toLowerCase ''sem'' = ''sem''" "toLowerCase ''ester'' = ''ester''"
  "toLowerCase ''st'' = ''st''" "toLowerCase ''nd'' = ''nd''"
  "toLowerCase ''rd'' = ''rd''" "toLowerCase ''th'' = ''th''"
  "is_letter CHR ''m''" "is_letter CHR ''r''"
  by code_simp+

lemma boundary_after_word:
  "is_word_char l \<Longrightarrow> at_boundary (Some l) post \<longleftrightarrow> \<not> word_after post"
  by (cases post) (auto simp: at_boundary_def word_after_def)

lemma boundary_before_word:
  "is_word_char d \<Longrightarrow> at_boundary (prev_after None pre) (d # x) \<longleftrightarrow> \<not> word_before pre"
  by (auto simp: at_boundary_def word_before_def prev_after_def)

lemma semester_word_end: "semester_word w \<Longrightarrow> w \<noteq> [] \<and> is_word_char (last w)"
  unfolding semester_word_def
  using lower_ends_in_letter [of w "''sem''"] lower_ends_in_letter [of w "''semester''"] lower_literals
  by auto

lemma tail4:
  "rx_accepts (Seq (Opt (Grp 3 (LitCI ''ester''))) WordB) (Some l) c post \<longleftrightarrow>
     (c = [] \<and> at_boundary (Some l) post)
     \<or> (toLowerCase c = ''ester'' \<and> at_boundary (Some (last c)) post)"
proof -
  have ne: "toLowerCase c = ''ester'' \<Longrightarrow> c \<noteq> []" by (auto simp: toLowerCase_def)
  show ?thesis
    unfolding accepts_simps lower_literals using ne by (auto simp: prev_after_def)
qed

lemma tail3:
  "rx_accepts (Seq (LitCI ''sem'') (Seq (Opt (Grp 3 (LitCI ''ester''))) WordB)) prev c post \<longleftrightarrow>
     semester_word c \<and> \<not> word_after post"
proof
  assume "rx_accepts (Seq (LitCI ''sem'') (Seq (Opt (Grp 3 (LitCI ''ester''))) WordB)) prev c post"
  then obtain w e where we: "c = w @ e" "toLowerCase w = ''sem''"
    "rx_accepts (Seq (Opt (Grp 3 (LitCI ''ester''))) WordB) (prev_after prev w) e post"
    unfolding accepts_Seq [of "LitCI ''sem''"] accepts_LitCI lower_literals by blast
  from lower_ends_in_letter [OF we(2)] lower_literals have w: "w \<noteq> []" "is_word_char (last w)" by auto
  then have pa: "prev_after prev w = Some (last w)" by (simp add: prev_after_def)
  from we(3) have "(e = [] \<and> at_boundary (Some (last w)) post)
     \<or> (toLowerCase e = ''ester'' \<and> at_boundary (Some (last e)) post)"
    unfolding pa tail4 .
  then show "semester_word c \<and> \<not> word_after post"
  proof
    assume "e = [] \<and> at_boundary (Some (last w)) post"
    then show ?thesis using we w by (simp add: semester_word_def boundary_after_word)
  next
    assume e: "toLowerCase e = ''ester'' \<and> at_boundary (Some (last e)) post"
    with lower_ends_in_letter [of e "''ester''"] lower_literals have "is_word_char (last e)" by auto
    with e we show ?thesis by (simp add: semester_word_def boundary_after_word toLowerCase_append)
  qed
next
  assume a: "semester_word c \<and> \<not> word_after post"
  then have cw: "c \<noteq> []" "is_word_char (last c)" using semester_word_end by auto
  from a have "toLowerCase c = ''sem'' \<or> toLowerCase c = ''semester''" by (simp add: semester_word_def)
  then show "rx_accepts (Seq (LitCI ''sem'') (Seq (Opt (Grp 3 (LitCI ''ester''))) WordB)) prev c post"
  proof
    assume s: "toLowerCase c = ''sem''"
    have "rx_accepts (Seq (Opt (Grp 3 (LitCI ''ester''))) WordB) (prev_after prev c) [] post"
      using cw a by (simp add: prev_after_def tail4 boundary_after_word)
    then show ?thesis
      unfolding accepts_Seq [of "LitCI ''sem''"] accepts_LitCI lower_literals
      using s by (intro exI [of _ c] exI [of _ "[]"]) simp
  next
    assume s: "toLowerCase c = ''semester''"
    let ?w = "take 3 c" and ?e = "drop 3 c"
    have w: "toLowerCase ?w = ''sem''" and e: "toLowerCase ?e = ''ester''"
      using s by (simp_all add: toLowerCase_take_drop)
    from lower_ends_in_letter [OF w] lower_literals have wn: "?w \<noteq> []" by auto
    from lower_ends_in_letter [OF e] lower_literals have en: "?e \<noteq> []" "is_word_char (last ?e)" by auto
    have "at_boundary (Some (last ?e)) post" using en a by (simp add: boundary_after_word)
    then have "rx_accepts (Seq (Opt (Grp 3 (LitCI ''ester''))) WordB) (prev_after prev ?w) ?e post"
      using wn e by (simp add: prev_after_def tail4)
    then show ?thesis
      unfolding accepts_Seq [of "LitCI ''sem''"] accepts_LitCI lower_literals
      using w by (intro exI [of _ ?w] exI [of _ ?e]) simp
  qed
qed

lemma tail2:
  "rx_accepts (Seq (Rep 1 None is_space)
                 (Seq (LitCI ''sem'') (Seq (Opt (Grp 3 (LitCI ''ester''))) WordB))) prev c post \<longleftrightarrow>
     (\<exists>ws word. c = ws @ word \<and> ws \<noteq> [] \<and> list_all is_space ws \<and> semester_word word
                 \<and> \<not> word_after post)"
  unfolding accepts_Seq [of "Rep 1 None is_space"] accepts_Rep tail3
  by (auto simp: Suc_le_eq)

lemma ordinal_alts:
  "rx_accepts (Grp 2 (Alt (LitCI ''st'') (Alt (LitCI ''nd'') (Alt (LitCI ''rd'') (LitCI ''th''))))) prev c post
   \<longleftrightarrow> ordinal_suffix c"
  unfolding accepts_Grp accepts_Alt accepts_LitCI lower_literals ordinal_suffix_def by blast

lemma tail1:
  "rx_accepts (Seq (Opt (Grp 2 (Alt (LitCI ''st'') (Alt (LitCI ''nd'') (Alt (LitCI ''rd'') (LitCI ''th''))))))
                 (Seq (Rep 1 None is_space)
                    (Seq (LitCI ''sem'') (Seq (Opt (Grp 3 (LitCI ''ester''))) WordB)))) prev c post \<longleftrightarrow>
     (\<exists>suf ws word. c = suf @ ws @ word \<and> (suf = [] \<or> ordinal_suffix suf) \<and> ws \<noteq> []
                     \<and> list_all is_space ws \<and> semester_word word \<and> \<not> word_after post)"
  unfolding accepts_Seq [of "Opt _"] accepts_Opt ordinal_alts tail2
  by (auto 4 4)

lemma accepts_WordB_Seq:
  "rx_accepts (Seq WordB r) prev c post \<longleftrightarrow> at_boundary prev (c @ post) \<and> rx_accepts r prev c post"
  unfolding accepts_Seq accepts_WordB by (auto simp: prev_after_def)

lemma accepts_one_Seq:
  "rx_accepts (Seq (Grp n (Cls p)) r) prev c post \<longleftrightarrow>
     (\<exists>d c2. c = d # c2 \<and> p d \<and> rx_accepts r (Some d) c2 post)"
proof
  assume "rx_accepts (Seq (Grp n (Cls p)) r) prev c post"
  then obtain c1 c2 x where "c = c1 @ c2" "c1 = [x]" "p x" "rx_accepts r (prev_after prev c1) c2 post"
    unfolding accepts_Seq accepts_Grp accepts_Cls by blast
  then show "\<exists>d c2. c = d # c2 \<and> p d \<and> rx_accepts r (Some d) c2 post"
    by (auto simp: prev_after_def)
next
  assume "\<exists>d c2. c = d # c2 \<and> p d \<and> rx_accepts r (Some d) c2 post"
  then obtain d c2 where h: "c = d # c2" "p d" "rx_accepts r (Some d) c2 post" by blast
  have "c = [d] @ c2" using h(1) by simp
  moreover have "rx_accepts r (prev_after prev [d]) c2 post" using h(3) by (simp add: prev_after_def)
  ultimately show "rx_accepts (Seq (Grp n (Cls p)) r) prev c post"
    unfolding accepts_Seq accepts_Grp accepts_Cls using h(2) by blast
qed

lemma semester_accepts:
  "rx_accepts semesterRegex prev c post \<longleftrightarrow>
     (\<exists>d suf ws word. c = d # suf @ ws @ word \<and> is_digit d \<and> at_boundary prev (c @ post)
        \<and> (suf = [] \<or> ordinal_suffix suf) \<and> ws \<noteq> [] \<and> list_all is_space ws
        \<and> semester_word word \<and> \<not> word_after post)"
proof -
  have "rx_accepts semesterRegex prev c post \<longleftrightarrow>
      at_boundary prev (c @ post)
      \<and> (\<exists>d c2. c = d # c2 \<and> is_digit d
            \<and> (\<exists>suf ws word. c2 = suf @ ws @ word \<and> (suf = [] \<or> ordinal_suffix suf) \<and> ws \<noteq> []
                     \<and> list_all is_space ws \<and> semester_word word \<and> \<not> word_after post))"
    unfolding semesterRegex_def seqs.simps alts.simps accepts_WordB_Seq accepts_one_Seq tail1 ..
  also have "\<dots> \<longleftrightarrow> (\<exists>d suf ws word. c = d # suf @ ws @ word \<and> is_digit d \<and> at_boundary prev (c @ post)
        \<and> (suf = [] \<or> ordinal_suffix suf) \<and> ws \<noteq> [] \<and> list_all is_space ws
        \<and> semester_word word \<and> \<not> word_after post)"
    by blast
  finally show ?thesis .
qed

lemma semester_match_iff:
  "rx_match semesterRegex (prev_after None pre) rest \<noteq> [] \<longleftrightarrow> (\<exists>d. semester_at pre rest d)"
proof
  assume "rx_match semesterRegex (prev_after None pre) rest \<noteq> []"
  then obtain c post d suf ws word where
    h: "rest = c @ post" "c = d # suf @ ws @ word" "is_digit d"
       "at_boundary (prev_after None pre) (c @ post)" "suf = [] \<or> ordinal_suffix suf" "ws \<noteq> []"
       "list_all is_space ws" "semester_word word" "\<not> word_after post"
    unfolding rx_match_accepts semester_accepts by blast
  from h(3) have "is_word_char d" by (simp add: is_word_char_def)
  with h(2,4) have "\<not> word_before pre" by (simp add: boundary_before_word)
  with h have "semester_at pre rest d" unfolding semester_at_def by auto
  then show "\<exists>d. semester_at pre rest d" ..
next
  assume "\<exists>d. semester_at pre rest d"
  then obtain d suf ws word post where
    h: "rest = d # suf @ ws @ word @ post" "is_digit d" "suf = [] \<or> ordinal_suffix suf"
       "ws \<noteq> []" "list_all is_space ws" "semester_word word" "\<not> word_before pre" "\<not> word_after post"
    unfolding semester_at_def by blast
  from h(2) have "is_word_char d" by (simp add: is_word_char_def)
  with h(7) have "at_boundary (prev_after None pre) ((d # suf @ ws @ word) @ post)"
    by (simp add: boundary_before_word)
  with h have "rx_accepts semesterRegex (prev_after None pre) (d # suf @ ws @ word) post"
    unfolding semester_accepts by blast
  moreover have "rest = (d # suf @ ws @ word) @ post" using h(1) by simp
  ultimately show "rx_match semesterRegex (prev_after None pre) rest \<noteq> []"
    unfolding rx_match_accepts by blast
qed

lemma rx_search_Some_in:
  "rx_search r prev rest = Some m \<Longrightarrow>
     \<exists>pre post. rest = pre @ post \<and> m \<in> set (rx_match r (prev_after prev pre) post)"
proof (induction rest arbitrary: prev)
  case Nil
  then have "m \<in> set (rx_match r (prev_after prev []) [])"
    by (auto simp: prev_after_def split: list.splits)
  then show ?case by blast
next
  case (Cons c cs)
  show ?case
  proof (cases "rx_match r prev (c # cs)")
    case Nil
    with Cons.prems have "rx_search r (Some c) cs = Some m" by simp
    from Cons.IH [OF this] obtain pre post where
      "cs = pre @ post" "m \<in> set (rx_match r (prev_after (Some c) pre) post)" by blast
    then have "c # cs = (c # pre) @ post \<and> m \<in> set (rx_match r (prev_after prev (c # pre)) post)"
      by (simp add: prev_after_Cons)
    then show ?thesis by blast
  next
    case (Cons x xs)
    with Cons.prems have "m \<in> set (rx_match r (prev_after prev []) (c # cs))"
      by (simp add: prev_after_def)
    then show ?thesis by (metis append_Nil)
  qed
qed

lemma semester_group:
  assumes "rx_sem semesterRegex prev c post k"
  shows "\<exists>d tl. c = d # tl \<and> is_digit d \<and> map_of k 1 = Some [d]"
  using assms unfolding semesterRegex_def by auto

lemma semester_match_group:
  assumes "m \<in> set (rx_match semesterRegex prev rest)"
  shows "\<exists>d tl. rest = d # tl \<and> group m 1 = Some [d]"
proof -
  obtain c k where m: "m = (c, k)" by (cases m)
  with assms have "(c, k) \<in> set (rx_match semesterRegex prev rest)" by simp
  then obtain post where "rest = c @ post" "rx_sem semesterRegex prev c post k"
    unfolding rx_match_sem by blast
  with semester_group [of prev c post k] m show ?thesis by (auto simp: group_def)
qed

lemma semester_at_head: "semester_at pre rest d \<Longrightarrow> \<exists>tl. rest = d # tl"
  by (auto simp: semester_at_def)

lemma semester_of_match:
  "semester (extractResourceInfo query) =
     (case js_match query semesterRegex of None \<Rightarrow> None | Some m \<Rightarrow> map_option parseInt (group m 1))"
  by (simp add: extractResourceInfo_def Let_def)

subsection \<open>Semester extraction\<close>

text \<open>
  C7. The semester extractor finds a semester exactly when the query mentions one: a
  single digit 0 to 9, not preceded by a word character, followed by an optional ordinal
  suffix (st, nd, rd, th), white space, and the word "sem" or "semester", in either case
  and not followed by a word character. It returns the digit of the leftmost mention as
  an integer. "3rd semester" and "3 sem" both give 3.
\<close>

theorem semester_extraction:
  "(semester (extractResourceInfo query) \<noteq> None \<longleftrightarrow>
      (\<exists>pre rest d. query = pre @ rest \<and> semester_at pre rest d))
   \<and> (query = pre @ rest \<and> semester_at pre rest d
        \<and> (\<forall>pre' rest' d'. query = pre' @ rest' \<and> semester_at pre' rest' d' \<longrightarrow> length pre \<le> length pre')
      \<longrightarrow> semester (extractResourceInfo query) = Some (digit_value d))
   \<and> semester (extractResourceInfo ''3rd semester'') = Some 3
   \<and> semester (extractResourceInfo ''3 sem'') = Some 3"
proof (intro conjI impI)
  show "semester (extractResourceInfo query) \<noteq> None \<longleftrightarrow>
      (\<exists>pre rest d. query = pre @ rest \<and> semester_at pre rest d)"
  proof (cases "js_match query semesterRegex")
    case None
    then have "\<forall>pre post. query = pre @ post \<longrightarrow> rx_match semesterRegex (prev_after None pre) post = []"
      unfolding js_match_def rx_search_None_iff .
    then have "\<not> (\<exists>pre rest d. query = pre @ rest \<and> semester_at pre rest d)"
      using semester_match_iff by blast
    with None show ?thesis by (simp add: semester_of_match)
  next
    case (Some m)
    then obtain pre post where h: "query = pre @ post"
      "m \<in> set (rx_match semesterRegex (prev_after None pre) post)"
      unfolding js_match_def using rx_search_Some_in by blast
    from semester_match_group [OF h(2)] have g: "group m 1 \<noteq> None" by auto
    from h(2) have "rx_match semesterRegex (prev_after None pre) post \<noteq> []" by auto
    then have "\<exists>d. semester_at pre post d" by (simp add: semester_match_iff)
    with h(1) g Some show ?thesis by (auto simp: semester_of_match)
  qed
next
  assume a: "query = pre @ rest \<and> semester_at pre rest d
        \<and> (\<forall>pre' rest' d'. query = pre' @ rest' \<and> semester_at pre' rest' d' \<longrightarrow> length pre \<le> length pre')"
  then have here: "rx_match semesterRegex (prev_after None pre) rest \<noteq> []"
    using semester_match_iff by blast
  have earlier: "\<forall>pre' post'. query = pre' @ post' \<and> length pre' < length pre \<longrightarrow>
           rx_match semesterRegex (prev_after None pre') post' = []"
  proof (intro allI impI)
    fix pre' post'
    assume b: "query = pre' @ post' \<and> length pre' < length pre"
    show "rx_match semesterRegex (prev_after None pre') post' = []"
    proof (rule ccontr)
      assume "rx_match semesterRegex (prev_after None pre') post' \<noteq> []"
      then obtain d' where "semester_at pre' post' d'" using semester_match_iff by blast
      with a b have "length pre \<le> length pre'" by blast
      with b show False by simp
    qed
  qed
  from a have q: "query = pre @ rest" by simp
  from rx_search_leftmost [OF q here earlier]
  have m: "js_match query semesterRegex = Some (hd (rx_match semesterRegex (prev_after None pre) rest))"
    by (simp add: js_match_def)
  from here have "hd (rx_match semesterRegex (prev_after None pre) rest)
      \<in> set (rx_match semesterRegex (prev_after None pre) rest)" by simp
  from semester_match_group [OF this] obtain d0 tl where
    g: "rest = d0 # tl" "group (hd (rx_match semesterRegex (prev_after None pre) rest)) 1 = Some [d0]"
    by blast
  from a semester_at_head [of pre rest d] g(1) have "d0 = d" by auto
  with m g(2) show "semester (extractResourceInfo query) = Some (digit_value d)"
    by (simp add: semester_of_match parseInt_def digit_value_def)
next
  show "semester (extractResourceInfo ''3rd semester'') = Some 3"
    unfolding semester_of_match by code_simp
next
  show "semester (extractResourceInfo ''3 sem'') = Some 3"
    unfolding semester_of_match by code_simp
qed


theorem semester_extraction_witness:
  "semester (extractResourceInfo ''2nd Semester notes'') = Some 2"
proof -
  have parts: "''2nd Semester notes'' = CHR ''2'' # ''nd'' @ '' '' @ ''Semester'' @ '' notes''" by simp
  have facts: "is_digit CHR ''2''" "ordinal_suffix ''nd''" "list_all is_space '' ''"
    "semester_word ''Semester''" "\<not> word_before []" "\<not> word_after '' notes''"
    unfolding ordinal_suffix_def semester_word_def word_before_def word_after_def by code_simp+
  have at: "semester_at [] ''2nd Semester notes'' CHR ''2''"
    unfolding semester_at_def using parts facts by blast
  have first: "\<forall>pre' rest' d'. ''2nd Semester notes'' = pre' @ rest' \<and> semester_at pre' rest' d'
      \<longrightarrow> length ([] :: string) \<le> length pre'"
    by simp
  have two: "digit_value CHR ''2'' = 2" by code_simp
  from semester_extraction [of "''2nd Semester notes''" "[]" "''2nd Semester notes''" "CHR ''2''"]
    at first two
  show ?thesis by simp
qed

text \<open>The digit 0 is matched as well: "0 sem" gives the semester 0.\<close>

theorem semester_digit_zero_counterexample:
  "semester (extractResourceInfo ''0 sem'') = Some 0
   \<and> \<not> (\<exists>c\<in>set ''0 sem''. c \<in> set ''123456789'')"
proof -
  have "semester (extractResourceInfo ''0 sem'') = Some 0"
    unfolding semester_of_match by code_simp
  moreover have "\<not> (\<exists>c\<in>set ''0 sem''. c \<in> set ''123456789'')" by simp
  ultimately show ?thesis by blast
qed

subsection \<open>Course-code extraction\<close>

lemma course_sem_D:
  assumes "rx_sem courseCodeRegex prev c post k"
  shows "\<exists>ls ws ds. c = ls @ ws @ ds \<and> k = [(1, ls), (2, ds)]
     \<and> list_all is_letter ls \<and> (length ls = 2 \<or> length ls = 3)
     \<and> list_all is_space ws \<and> list_all is_digit ds \<and> length ds = 3
     \<and> at_boundary prev (c @ post) \<and> at_boundary (Some (last ds)) post"
proof -
  from assms obtain ls ws ds p where
    h: "c = ls @ ws @ ds" "k = [(1, ls), (2, ds)]" "list_all is_letter ls" "2 \<le> length ls" "length ls \<le> 3"
       "list_all is_space ws" "list_all is_digit ds" "3 \<le> length ds" "length ds \<le> 3"
       "at_boundary prev (c @ post)" "at_boundary (prev_after p ds) post"
    unfolding courseCodeRegex_def seqs.simps rx_sem.simps option.case by auto
  from h(8) have "ds \<noteq> []" by auto
  then have "prev_after p ds = Some (last ds)" by (simp add: prev_after_def)
  moreover from h(4,5) have "length ls = 2 \<or> length ls = 3" by arith
  ultimately show ?thesis using h by auto
qed

lemma course_accepts_I:
  assumes "list_all is_letter ls" "length ls = 2 \<or> length ls = 3" "list_all is_space ws"
    "list_all is_digit ds" "length ds = 3"
    "at_boundary prev (ls @ ws @ ds @ post)" "at_boundary (Some (last ds)) post"
  shows "rx_accepts courseCodeRegex prev (ls @ ws @ ds) post"
proof -
  have ds: "ds \<noteq> []" using assms(5) by auto
  have w: "rx_accepts WordB (prev_after (prev_after (prev_after prev ls) ws) ds) [] post"
    using assms(7) ds by (simp add: accepts_WordB prev_after_def)
  have d: "rx_accepts (Seq (Grp 2 (Rep 3 (Some 3) is_digit)) WordB) (prev_after (prev_after prev ls) ws) ds post"
    unfolding accepts_Seq accepts_Grp accepts_Rep
    using w assms(4,5) by (intro exI [of _ ds] exI [of _ "[]"]) simp
  have s: "rx_accepts (Seq (Rep 0 None is_space) (Seq (Grp 2 (Rep 3 (Some 3) is_digit)) WordB))
             (prev_after prev ls) (ws @ ds) post"
    unfolding accepts_Seq [of "Rep 0 None is_space"] accepts_Rep
    using d assms(3) by (intro exI [of _ ws] exI [of _ ds]) simp
  have l: "rx_accepts (Seq (Grp 1 (Rep 2 (Some 3) is_letter))
             (Seq (Rep 0 None is_space) (Seq (Grp 2 (Rep 3 (Some 3) is_digit)) WordB)))
             prev (ls @ ws @ ds) post"
    unfolding accepts_Seq [of "Grp 1 _"] accepts_Grp accepts_Rep
    using s assms(1,2) by (intro exI [of _ ls] exI [of _ "ws @ ds"]) auto
  show ?thesis
    unfolding courseCodeRegex_def seqs.simps accepts_WordB_Seq
    using l assms(6) by simp
qed


lemma class_disjoint:
  "is_space c \<Longrightarrow> \<not> is_letter c" "is_digit c \<Longrightarrow> \<not> is_letter c" "is_digit c \<Longrightarrow> \<not> is_space c"
  unfolding is_space_def is_letter_def is_digit_def Let_def by arith+

lemma takeWhile_run:
  "list_all p xs \<Longrightarrow> ys = [] \<or> \<not> p (hd ys) \<Longrightarrow> takeWhile p (xs @ ys) = xs"
  by (induction xs) (auto simp: takeWhile_eq_Nil_iff)

lemma course_code_at_D:
  assumes "course_code_at pre rest ls ds"
  shows "ls = takeWhile is_letter rest"
    and "ds = take 3 (dropWhile is_space (drop (length ls) rest))"
proof -
  from assms obtain ws post where
    h: "rest = ls @ ws @ ds @ post" "list_all is_letter ls" "list_all is_space ws"
       "length ds = 3" "list_all is_digit ds"
    unfolding course_code_at_def by blast
  from h(4) obtain d0 ds' where ds: "ds = d0 # ds'" by (cases ds) auto
  with h(5) have d0: "is_digit d0" by simp
  have "\<not> is_letter (hd (ws @ ds @ post))"
    using h(3) ds d0 class_disjoint by (cases ws) auto
  then have "takeWhile is_letter (ls @ (ws @ ds @ post)) = ls"
    using h(2) by (intro takeWhile_run) auto
  then show ls: "ls = takeWhile is_letter rest" using h(1) by simp
  have "dropWhile is_space (ws @ (ds @ post)) = ds @ post"
    using h(3) d0 ds class_disjoint by (simp add: dropWhile_append3 list_all_iff)
  then have "dropWhile is_space (drop (length ls) rest) = ds @ post" using h(1) by simp
  then show "ds = take 3 (dropWhile is_space (drop (length ls) rest))" using h(4) by simp
qed

lemma course_code_at_unique:
  "course_code_at pre rest l1 d1 \<Longrightarrow> course_code_at pre rest l2 d2 \<Longrightarrow> l1 = l2 \<and> d1 = d2"
  using course_code_at_D by metis

lemma letter_start:
  "list_all is_letter ls \<Longrightarrow> length ls = 2 \<or> length ls = 3 \<Longrightarrow>
   at_boundary (prev_after None pre) (ls @ x) \<longleftrightarrow> \<not> word_before pre"
  by (cases ls) (auto simp: boundary_before_word is_word_char_def)

lemma digit_end:
  "list_all is_digit ds \<Longrightarrow> length ds = 3 \<Longrightarrow>
   at_boundary (Some (last ds)) post \<longleftrightarrow> \<not> word_after post"
proof -
  assume a: "list_all is_digit ds" "length ds = 3"
  then have "ds \<noteq> []" by auto
  then have "last ds \<in> set ds" by simp
  with a(1) have "is_word_char (last ds)" by (auto simp: list_all_iff is_word_char_def)
  then show ?thesis by (rule boundary_after_word)
qed

lemma course_match_groups:
  assumes "m \<in> set (rx_match courseCodeRegex (prev_after None pre) rest)"
  shows "\<exists>l d. course_code_at pre rest l d \<and> group m 1 = Some l \<and> group m 2 = Some d"
proof -
  obtain c k where m: "m = (c, k)" by (cases m)
  with assms have "(c, k) \<in> set (rx_match courseCodeRegex (prev_after None pre) rest)" by simp
  then obtain post where p: "rest = c @ post" "rx_sem courseCodeRegex (prev_after None pre) c post k"
    unfolding rx_match_sem by blast
  from course_sem_D [OF p(2)] obtain ls ws ds where
    h: "c = ls @ ws @ ds" "k = [(1, ls), (2, ds)]" "list_all is_letter ls" "length ls = 2 \<or> length ls = 3"
       "list_all is_space ws" "list_all is_digit ds" "length ds = 3"
       "at_boundary (prev_after None pre) (c @ post)" "at_boundary (Some (last ds)) post"
    by blast
  have "\<not> word_before pre" using h(1,3,4,8) letter_start [of ls pre "ws @ ds @ post"] by simp
  moreover have "\<not> word_after post" using h(6,7,9) digit_end by simp
  moreover have "rest = ls @ ws @ ds @ post" using p(1) h(1) by simp
  ultimately have "course_code_at pre rest ls ds"
    unfolding course_code_at_def using h by blast
  moreover have "group m 1 = Some ls \<and> group m 2 = Some ds" using m h(2) by (simp add: group_def)
  ultimately show ?thesis by blast
qed

lemma course_match_iff:
  "rx_match courseCodeRegex (prev_after None pre) rest \<noteq> [] \<longleftrightarrow> (\<exists>l d. course_code_at pre rest l d)"
proof
  assume "rx_match courseCodeRegex (prev_after None pre) rest \<noteq> []"
  then obtain m where "m \<in> set (rx_match courseCodeRegex (prev_after None pre) rest)"
    by (cases "rx_match courseCodeRegex (prev_after None pre) rest") auto
  from course_match_groups [OF this] show "\<exists>l d. course_code_at pre rest l d" by blast
next
  assume "\<exists>l d. course_code_at pre rest l d"
  then obtain ls ds ws post where
    h: "rest = ls @ ws @ ds @ post" "length ls = 2 \<or> length ls = 3" "list_all is_letter ls"
       "list_all is_space ws" "length ds = 3" "list_all is_digit ds"
       "\<not> word_before pre" "\<not> word_after post"
    unfolding course_code_at_def by blast
  have b1: "at_boundary (prev_after None pre) (ls @ ws @ ds @ post)"
    using h(2,3,7) letter_start by simp
  have b2: "at_boundary (Some (last ds)) post" using h(5,6,8) digit_end by simp
  from course_accepts_I [OF h(3) h(2) h(4) h(6) h(5) b1 b2]
  have "rx_accepts courseCodeRegex (prev_after None pre) (ls @ ws @ ds) post" .
  moreover have "rest = (ls @ ws @ ds) @ post" using h(1) by simp
  ultimately show "rx_match courseCodeRegex (prev_after None pre) rest \<noteq> []"
    unfolding rx_match_accepts by blast
qed


lemma upper_upper: "toUpperCase_char (toUpperCase_char c) = toUpperCase_char c"
proof -
  have "(of_char (toUpperCase_char (toUpperCase_char c)) :: nat) = of_char (toUpperCase_char c)"
    unfolding of_char_upper [of "toUpperCase_char c"] of_char_upper [of c]
    by (simp split: if_splits) arith
  then show ?thesis by (simp only: of_char_eq_iff)
qed

lemma toUpperCase_idem: "toUpperCase (toUpperCase s) = toUpperCase s"
  by (simp add: toUpperCase_def upper_upper)

lemma extractCourseCode_of_match:
  "js_match query courseCodeRegex = Some m \<Longrightarrow> group m 1 = Some g1 \<Longrightarrow> group m 2 = Some g2 \<Longrightarrow>
   extractCourseCode query =
     (if map_of courseDatabase (toUpperCase (g1 @ g2)) = None then None
      else Some (toUpperCase (g1 @ g2)))"
  by (simp add: extractCourseCode_def Let_def)

lemma extractCourseCode_Some_D:
  assumes "extractCourseCode query = Some code"
  shows "\<exists>info. map_of courseDatabase code = Some info \<and> getCourseInfo code = Some info"
proof -
  from assms obtain x where "code = toUpperCase x" "map_of courseDatabase code \<noteq> None"
    unfolding extractCourseCode_def Let_def
    by (auto split: option.splits if_splits)
  then show ?thesis by (auto simp: getCourseInfo_def toUpperCase_idem)
qed

lemma prompt_has_course_name:
  assumes "extractCourseCode query = Some code" "fullPrompt env messages query = Inr p"
  shows "\<exists>info. map_of courseDatabase code = Some info \<and> sublist (course_name info) p"
proof -
  from extractCourseCode_Some_D [OF assms(1)] obtain info where
    info: "map_of courseDatabase code = Some info" "getCourseInfo code = Some info" by blast
  obtain history where
    p: "p = systemMessage env query @ ''\<newline>\<newline>Conversation history:\<newline>'' @ history
              @ ''\<newline>\<newline>User query: '' @ query"
    using assms(2) by (auto simp: fullPrompt_def split: sum.splits)
  have "course_context query =
      (''\<newline>The user is asking about '' @ code @ '': '') @ course_name info
      @ (''. This course covers: '' @ join '', '' (topics info) @ ''. '')"
    using assms(1) info(2) by (simp add: course_context_def)
  then have "sublist (course_name info) (course_context query)"
    by (metis sublist_appendI)
  then have "sublist (course_name info) (systemMessage env query)"
    unfolding systemMessage_def by (metis sublist_append)
  then have "sublist (course_name info) p"
    unfolding p by (metis sublist_append)
  with info(1) show ?thesis by blast
qed

text \<open>
  C3. The extractor reads the leftmost mention of a course code in the query, a mention
  being two or three letters, optional white space and exactly three digits, with no
  word character right before or right after. When the code it spells, in upper case and
  without the white space, is in the course table, that code is returned; when it is not
  in the table, or the query has no mention, the result is no course. And when a code is
  returned, the composed prompt contains the name of that course.
\<close>

theorem course_code_extraction:
  "(query = pre @ rest \<and> course_code_at pre rest letters digits
      \<and> (\<forall>pre' rest' l d. query = pre' @ rest' \<and> course_code_at pre' rest' l d \<longrightarrow> length pre \<le> length pre')
     \<longrightarrow> extractCourseCode query =
           (if map_of courseDatabase (toUpperCase (letters @ digits)) = None then None
            else Some (toUpperCase (letters @ digits))))
   \<and> (\<not> (\<exists>pre rest l d. query = pre @ rest \<and> course_code_at pre rest l d)
        \<longrightarrow> extractCourseCode query = None)
   \<and> (extractCourseCode query = Some code \<and> fullPrompt env messages query = Inr p
        \<longrightarrow> (\<exists>info. map_of courseDatabase code = Some info \<and> sublist (course_name info) p))"
proof (intro conjI impI)
  assume a: "query = pre @ rest \<and> course_code_at pre rest letters digits
      \<and> (\<forall>pre' rest' l d. query = pre' @ rest' \<and> course_code_at pre' rest' l d \<longrightarrow> length pre \<le> length pre')"
  then have here: "rx_match courseCodeRegex (prev_after None pre) rest \<noteq> []"
    using course_match_iff by blast
  have earlier: "\<forall>pre' post'. query = pre' @ post' \<and> length pre' < length pre \<longrightarrow>
           rx_match courseCodeRegex (prev_after None pre') post' = []"
  proof (intro allI impI)
    fix pre' post'
    assume b: "query = pre' @ post' \<and> length pre' < length pre"
    show "rx_match courseCodeRegex (prev_after None pre') post' = []"
    proof (rule ccontr)
      assume "rx_match courseCodeRegex (prev_after None pre') post' \<noteq> []"
      then obtain l d where "course_code_at pre' post' l d" using course_match_iff by blast
      with a b have "length pre \<le> length pre'" by blast
      with b show False by simp
    qed
  qed
  from a have q: "query = pre @ rest" by simp
  let ?m = "hd (rx_match courseCodeRegex (prev_after None pre) rest)"
  from rx_search_leftmost [OF q here earlier]
  have m: "js_match query courseCodeRegex = Some ?m" by (simp add: js_match_def)
  from here have "?m \<in> set (rx_match courseCodeRegex (prev_after None pre) rest)" by simp
  from course_match_groups [OF this] obtain l d where
    g: "course_code_at pre rest l d" "group ?m 1 = Some l" "group ?m 2 = Some d" by blast
  from a g(1) course_code_at_unique have "l = letters \<and> d = digits" by blast
  with extractCourseCode_of_match [OF m g(2) g(3)]
  show "extractCourseCode query =
           (if map_of courseDatabase (toUpperCase (letters @ digits)) = None then None
            else Some (toUpperCase (letters @ digits)))"
    by simp
next
  assume n: "\<not> (\<exists>pre rest l d. query = pre @ rest \<and> course_code_at pre rest l d)"
  have "\<forall>pre post. query = pre @ post \<longrightarrow> rx_match courseCodeRegex (prev_after None pre) post = []"
    using n course_match_iff by blast
  then have "js_match query courseCodeRegex = None"
    unfolding js_match_def rx_search_None_iff .
  then show "extractCourseCode query = None" by (simp add: extractCourseCode_def)
next
  assume "extractCourseCode query = Some code \<and> fullPrompt env messages query = Inr p"
  then show "\<exists>info. map_of courseDatabase code = Some info \<and> sublist (course_name info) p"
    using prompt_has_course_name by blast
qed

theorem course_code_extraction_witness:
  "extractCourseCode ''chb 101 topics'' = Some ''CHB101''
   \<and> (\<exists>p. fullPrompt offline_environment [user_message ''chb 101 topics''] ''chb 101 topics'' = Inr p
           \<and> sublist ''Chemistry Basics 101'' p)
   \<and> extractCourseCode ''hello'' = None"
proof -
  have parts: "''chb 101 topics'' = ''chb'' @ '' '' @ ''101'' @ '' topics''" by simp
  have facts: "length ''chb'' = 2 \<or> length ''chb'' = 3" "list_all is_letter ''chb''" "list_all is_space '' ''"
    "length ''101'' = 3" "list_all is_digit ''101''" "\<not> word_before []" "\<not> word_after '' topics''"
    unfolding word_before_def word_after_def by code_simp+
  have at: "course_code_at [] ''chb 101 topics'' ''chb'' ''101''"
    unfolding course_code_at_def using parts facts by blast
  have first: "\<forall>pre' rest' l d. ''chb 101 topics'' = pre' @ rest' \<and> course_code_at pre' rest' l d
      \<longrightarrow> length ([] :: string) \<le> length pre'"
    by simp
  have known: "map_of courseDatabase (toUpperCase (''chb'' @ ''101'')) \<noteq> None"
    "toUpperCase (''chb'' @ ''101'') = ''CHB101''"
    by code_simp+
  have code: "extractCourseCode ''chb 101 topics'' = Some ''CHB101''"
    using course_code_extraction [of "''chb 101 topics''" "[]" "''chb 101 topics''" "''chb''" "''101''"]
      at first known
    by simp
  obtain p where p: "fullPrompt offline_environment [user_message ''chb 101 topics''] ''chb 101 topics'' = Inr p"
    using single_message_prompt by blast
  have name: "map_of courseDatabase ''CHB101'' =
      Some info \<Longrightarrow> course_name info = ''Chemistry Basics 101''" for info
    by (auto simp: courseDatabase_def)
  from course_code_extraction [of "''chb 101 topics''" "[]" "''chb 101 topics''" "''chb''" "''101''"
      "''CHB101''" offline_environment "[user_message ''chb 101 topics'']" p] code p
  have "\<exists>info. map_of courseDatabase ''CHB101'' = Some info \<and> sublist (course_name info) p"
    by blast
  with name have prompt: "sublist ''Chemistry Basics 101'' p" by auto
  have "js_match ''hello'' courseCodeRegex = None" by code_simp
  then have "\<forall>pre post. ''hello'' = pre @ post \<longrightarrow> rx_match courseCodeRegex (prev_after None pre) post = []"
    unfolding js_match_def rx_search_None_iff .
  then have none: "\<not> (\<exists>pre rest l d. ''hello'' = pre @ rest \<and> course_code_at pre rest l d)"
    using course_match_iff by blast
  have hello: "extractCourseCode ''hello'' = None"
    using course_code_extraction [of "''hello''"] none by blast
  from code p prompt hello show ?thesis by blast
qed

text \<open>
  A code of the table may occur in the query and not be returned: the extractor looks
  at the leftmost mention only, here a code that the table does not have.
\<close>

theorem course_code_substring_counterexample:
  "sublist ''CHB101'' ''MTH101 or CHB101''
   \<and> map_of courseDatabase ''CHB101'' \<noteq> None
   \<and> extractCourseCode ''MTH101 or CHB101'' = None"
  by code_simp

end
